theory Spec2Isabelle
  imports Complex_Main
begin

section \<open>Validation report model (data_quality.py)\<close>

text \<open>
  \<^verbatim>\<open>ValidationResult\<close> is a dataclass with the fields check_name, passed, message,
  severity and details. The severity is a Python string (\<^verbatim>\<open>'ERROR'\<close>, \<^verbatim>\<open>'WARNING'\<close>,
  \<^verbatim>\<open>'INFO'\<close>) and is kept a string here, so a result built with any other spelling
  counts for nothing, as in the source. The fields message and details hold display
  text and a free-form dictionary; only \<^verbatim>\<open>summary()\<close> reads them, so the model keeps
  the three fields that the properties and the gate consult.
\<close>

record ValidationResult =
  check_name :: string
  passed :: bool
  severity :: string

text \<open>
  \<^verbatim>\<open>ValidationReport\<close>: timestamp, stage and the ordered list of results. Timestamps
  are integers (pandas keeps nanoseconds since the epoch).
\<close>

record ValidationReport =
  timestamp :: int
  stage :: string
  results :: "ValidationResult list"

text \<open>
  \<^verbatim>\<open>return all(r.passed for r in self.results if r.severity == 'ERROR')\<close>
\<close>

definition report_passed :: "ValidationReport \<Rightarrow> bool" where
  "report_passed rep = list_all passed (filter (\<lambda>r. severity r = ''ERROR'') (results rep))"

text \<open>
  \<^verbatim>\<open>return sum(1 for r in self.results if not r.passed and r.severity == 'ERROR')\<close>
\<close>

definition error_count :: "ValidationReport \<Rightarrow> nat" where
  "error_count rep =
     length (filter (\<lambda>r. \<not> passed r \<and> severity r = ''ERROR'') (results rep))"

definition warning_count :: "ValidationReport \<Rightarrow> nat" where
  "warning_count rep =
     length (filter (\<lambda>r. \<not> passed r \<and> severity r = ''WARNING'') (results rep))"

subsection \<open>The gate\<close>

text \<open>
  \<^verbatim>\<open>validation_gate\<close> raises \<^verbatim>\<open>ValueError\<close> with the message
  \<^verbatim>\<open>f"Validation failed at stage '{report.stage}' with {report.error_count} errors"\<close>.
  The exception is a value here; it carries the two values the message is built from.
\<close>

datatype py_error = ValueError string nat

definition validation_gate :: "ValidationReport \<Rightarrow> bool \<Rightarrow> py_error + bool" where
  "validation_gate report fail_on_error =
     (if \<not> report_passed report then
        (if fail_on_error then Inl (ValueError (stage report) (error_count report))
         else Inr False)
      else Inr True)"

section \<open>Transactions and frames\<close>

text \<open>
  A pandas DataFrame is modelled row by row, in the order of the frame. Every row has an
  index label, and pandas does not require the labels of a frame to differ: the frames
  built by \<^verbatim>\<open>load_tc_data\<close> and by \<^verbatim>\<open>pd.DataFrame(data)\<close> carry the labels 0, 1, 2, ...,
  while \<^verbatim>\<open>pd.concat\<close> of two such frames keeps the labels of both.

  \<^verbatim>\<open>unique()\<close> keeps the first occurrence of every value, in order of appearance;
  \<^verbatim>\<open>dropna()\<close> keeps the values that are present.
\<close>

fun unique :: "'a list \<Rightarrow> 'a list" where
  "unique [] = []"
| "unique (x # xs) = x # filter (\<lambda>y. y \<noteq> x) (unique xs)"

fun dropna :: "'a option list \<Rightarrow> 'a list" where
  "dropna [] = []"
| "dropna (None # xs) = dropna xs"
| "dropna (Some x # xs) = x # dropna xs"

subsection \<open>Raw batches, as the Source Validator receives them\<close>

text \<open>
  The Source Validator runs on unvalidated data, where any of the five required columns
  may hold a null (\<^verbatim>\<open>None\<close>, \<^verbatim>\<open>NaN\<close>, \<^verbatim>\<open>NaT\<close>): a raw row carries them as options. The
  validator reads no other column, and no index label. The dtype of the CUSTOMERID
  column is part of the frame, by its name, because check 6 consults it.
\<close>

record raw_txn =
  raw_TRANS_ID :: "int option"
  raw_TCTYPE :: "string option"
  raw_CREATEDAT :: "int option"
  raw_CUSTOMERID :: "int option"
  raw_AMOUNT :: "rat option"

record raw_frame =
  raw_rows :: "raw_txn list"
  CUSTOMERID_dtype :: string

text \<open>
  Comparisons of a column with a scalar are false on a null entry
  (\<^verbatim>\<open>.gt(0)\<close>, \<^verbatim>\<open>.lt(0)\<close>, \<^verbatim>\<open><= 0\<close>, \<^verbatim>\<open>> datetime.now()\<close>).
\<close>

fun na_gt :: "('a::linorder) option \<Rightarrow> 'a \<Rightarrow> bool" where
  "na_gt None b = False"
| "na_gt (Some a) b = (a > b)"

fun na_lt :: "('a::linorder) option \<Rightarrow> 'a \<Rightarrow> bool" where
  "na_lt None b = False"
| "na_lt (Some a) b = (a < b)"

fun na_le :: "('a::linorder) option \<Rightarrow> 'a \<Rightarrow> bool" where
  "na_le None b = False"
| "na_le (Some a) b = (a \<le> b)"

text \<open>
  \<^verbatim>\<open>df[df['TRANS_ID'].duplicated()]['TRANS_ID'].tolist()\<close>: every occurrence of a value
  after its first one (nulls count as equal to each other).
\<close>

fun duplicated :: "'a list \<Rightarrow> 'a list \<Rightarrow> 'a list" where
  "duplicated seen [] = []"
| "duplicated seen (x # xs) =
     (if x \<in> set seen then x # duplicated seen xs else duplicated (x # seen) xs)"

subsection \<open>Validated batches, as the engine and the Result Validator receive them\<close>

text \<open>
  A row of the frame: its index label, and a transaction of the data model, in which
  the five required fields are present and the others optional. TCTYPE stays a string,
  as in the source: a row whose kind is none of
  \<^verbatim>\<open>'earned'\<close>, \<^verbatim>\<open>'spent'\<close>, \<^verbatim>\<open>'expired'\<close> is neither a lot nor a redemption. REDEEMID is
  the allocation column; whether a frame has that column at all is a flag of the frame
  (the REDEEMID values of a frame without the column are never read).

  AMOUNT is a float64 in the source and an exact rational here: an amount stands for
  the rational it denotes, comparisons are then the same, and the differences and sums
  of amounts are exact here where the source rounds them to the nearest float64. The
  two agree wherever the exact result is a float64, as it is for the whole amounts of
  the fixtures; a property below that is stated for all amounts (that the engine
  writes REDEEMID alone, that a second run repeats the first) rests on no value of a
  difference.
\<close>

record txn =
  index_label :: int
  TRANS_ID :: int
  TCTYPE :: string
  CREATEDAT :: int
  EXPIREDAT :: "int option"
  CUSTOMERID :: int
  ORDERID :: "int option"
  AMOUNT :: rat
  REASON :: "string option"
  REDEEMID :: "int option"

record frame =
  rows :: "txn list"
  has_REDEEMID :: bool

section \<open>Source Validator (validate_source_data)\<close>

text \<open>
  Check 1, once per required field:
  \<^verbatim>\<open>null_count = df[field].isna().sum(); passed = null_count == 0\<close>.
\<close>

definition null_check :: "string \<Rightarrow> 'a option list \<Rightarrow> ValidationResult" where
  "null_check field col =
     (let null_count = length (filter (\<lambda>v. v = None) col)
      in \<lparr>check_name = ''No Null Values: '' @ field, passed = (null_count = 0),
          severity = ''ERROR''\<rparr>)"

text \<open>
  Check 2: \<^verbatim>\<open>invalid_types = set(df['TCTYPE'].dropna().unique()) - valid_types\<close>.
\<close>

definition valid_types_check :: "raw_txn list \<Rightarrow> ValidationResult" where
  "valid_types_check df =
     (let valid_types = {''earned'', ''spent'', ''expired''};
          actual_types = set (unique (dropna (map raw_TCTYPE df)));
          invalid_types = actual_types - valid_types
      in \<lparr>check_name = ''Valid Transaction Types'', passed = (invalid_types = {}),
          severity = ''ERROR''\<rparr>)"

text \<open>
  Check 3:
  \<^verbatim>\<open>earned_positive = df[df['TCTYPE'] == 'earned']['AMOUNT'].gt(0).all()\<close>, likewise
  \<^verbatim>\<open>.lt(0).all()\<close> for spent and for expired, and the conjunction of the three.
\<close>

definition sign_check :: "raw_txn list \<Rightarrow> ValidationResult" where
  "sign_check df =
     (let earned_positive =
            list_all (\<lambda>r. na_gt (raw_AMOUNT r) 0) (filter (\<lambda>r. raw_TCTYPE r = Some ''earned'') df);
          spent_negative =
            list_all (\<lambda>r. na_lt (raw_AMOUNT r) 0) (filter (\<lambda>r. raw_TCTYPE r = Some ''spent'') df);
          expired_negative =
            list_all (\<lambda>r. na_lt (raw_AMOUNT r) 0) (filter (\<lambda>r. raw_TCTYPE r = Some ''expired'') df);
          sign_check_passed = (earned_positive \<and> spent_negative \<and> expired_negative)
      in \<lparr>check_name = ''Amount Sign Consistency'', passed = sign_check_passed,
          severity = ''ERROR''\<rparr>)"

text \<open>Check 4: no TRANS_ID is duplicated.\<close>

definition duplicate_check :: "raw_txn list \<Rightarrow> ValidationResult" where
  "duplicate_check df =
     (let duplicate_ids = duplicated [] (map raw_TRANS_ID df)
      in \<lparr>check_name = ''No Duplicate Transaction IDs'', passed = (length duplicate_ids = 0),
          severity = ''ERROR''\<rparr>)"

text \<open>
  Check 5: \<^verbatim>\<open>future_dates = df[df['CREATEDAT'] > datetime.now()]\<close>, a warning. The clock
  is a parameter.
\<close>

definition future_dates_check :: "int \<Rightarrow> raw_txn list \<Rightarrow> ValidationResult" where
  "future_dates_check now df =
     (let future_dates = filter (\<lambda>r. na_gt (raw_CREATEDAT r) now) df
      in \<lparr>check_name = ''No Future Dates'', passed = (length future_dates = 0),
          severity = ''WARNING''\<rparr>)"

text \<open>
  Check 6:
  \<^verbatim>\<open>invalid_customers = df[df['CUSTOMERID'] <= 0]
       if df['CUSTOMERID'].dtype in ['int64', 'float64'] else pd.DataFrame()\<close>.
  The comparison is made only on a column whose dtype is named int64 or float64; for
  any other dtype the list of invalid customers is the empty frame.
\<close>

definition customer_id_check :: "raw_frame \<Rightarrow> ValidationResult" where
  "customer_id_check df =
     (let invalid_customers =
            (if CUSTOMERID_dtype df \<in> {''int64'', ''float64''}
             then filter (\<lambda>r. na_le (raw_CUSTOMERID r) 0) (raw_rows df) else [])
      in \<lparr>check_name = ''Valid Customer IDs'', passed = (length invalid_customers = 0),
          severity = ''ERROR''\<rparr>)"

text \<open>Check 7 is informational and always passes.\<close>

definition summary_check :: ValidationResult where
  "summary_check =
     \<lparr>check_name = ''Data Completeness Summary'', passed = True, severity = ''INFO''\<rparr>"

text \<open>
  The validator appends the results in this order and returns the report. The clock is
  read twice (check 5 and the report's timestamp).
\<close>

definition validate_source_data :: "int \<Rightarrow> int \<Rightarrow> raw_frame \<Rightarrow> ValidationReport" where
  "validate_source_data now now' df =
     \<lparr>timestamp = now', stage = ''source'',
      results =
        [null_check ''TRANS_ID'' (map raw_TRANS_ID (raw_rows df)),
         null_check ''TCTYPE'' (map raw_TCTYPE (raw_rows df)),
         null_check ''CREATEDAT'' (map raw_CREATEDAT (raw_rows df)),
         null_check ''CUSTOMERID'' (map raw_CUSTOMERID (raw_rows df)),
         null_check ''AMOUNT'' (map raw_AMOUNT (raw_rows df)),
         valid_types_check (raw_rows df),
         sign_check (raw_rows df),
         duplicate_check (raw_rows df),
         future_dates_check now (raw_rows df),
         customer_id_check df,
         summary_check]\<rparr>"

section \<open>Result Validator (validate_fifo_results)\<close>

definition is_redemption :: "txn \<Rightarrow> bool" where
  "is_redemption r \<longleftrightarrow> TCTYPE r \<in> {''spent'', ''expired''}"

text \<open>Check 2: every assigned REDEEMID is the TRANS_ID of a spent or expired row.\<close>

definition redeemid_valid_check :: "txn list \<Rightarrow> ValidationResult" where
  "redeemid_valid_check matched_df =
     (let valid_redemption_ids = set (map TRANS_ID (filter is_redemption matched_df));
          assigned_redeemids = set (dropna (map REDEEMID matched_df));
          invalid_redeemids = assigned_redeemids - valid_redemption_ids
      in \<lparr>check_name = ''REDEEMID References Valid Transactions'',
          passed = (invalid_redeemids = {}), severity = ''ERROR''\<rparr>)"

text \<open>Check 3: no row other than an earned one carries a REDEEMID.\<close>

definition only_earned_check :: "txn list \<Rightarrow> ValidationResult" where
  "only_earned_check matched_df =
     (let non_earned_with_redeemid =
            filter (\<lambda>r. TCTYPE r \<noteq> ''earned'' \<and> REDEEMID r \<noteq> None) matched_df
      in \<lparr>check_name = ''Only Earned Transactions Have REDEEMID'',
          passed = (length non_earned_with_redeemid = 0), severity = ''ERROR''\<rparr>)"

text \<open>
  Check 4: for every earned row with a REDEEMID, the first row whose TRANS_ID equals it
  (if there is one) must not be dated before the earned row.
\<close>

definition chronological_errors :: "txn list \<Rightarrow> txn list" where
  "chronological_errors matched_df =
     filter (\<lambda>earned_row.
        case REDEEMID earned_row of
          None \<Rightarrow> False
        | Some redeemid \<Rightarrow>
            (case filter (\<lambda>r. TRANS_ID r = redeemid) matched_df of
               [] \<Rightarrow> False
             | redemption_row # _ \<Rightarrow> CREATEDAT earned_row > CREATEDAT redemption_row))
       (filter (\<lambda>r. TCTYPE r = ''earned'' \<and> REDEEMID r \<noteq> None) matched_df)"

definition chronological_check :: "txn list \<Rightarrow> ValidationResult" where
  "chronological_check matched_df =
     \<lparr>check_name = ''Chronological Consistency'',
      passed = (length (chronological_errors matched_df) = 0), severity = ''ERROR''\<rparr>"

text \<open>
  Check 5, a warning: per customer,
  \<^verbatim>\<open>remaining = total_earned - total_spent - total_expired\<close> with the two debit totals
  taken in absolute value, and an error entry when \<^verbatim>\<open>remaining < -0.01\<close>. The sums and
  the threshold are exact rationals here and float64 values in the source, so a
  remainder within a rounding error of the threshold may fall on the other side there.
\<close>

definition total_amount :: "string \<Rightarrow> txn list \<Rightarrow> rat" where
  "total_amount kind customer_df = sum_list (map AMOUNT (filter (\<lambda>r. TCTYPE r = kind) customer_df))"

definition balance_errors :: "txn list \<Rightarrow> int list" where
  "balance_errors matched_df =
     filter (\<lambda>customer_id.
        let customer_df = filter (\<lambda>r. CUSTOMERID r = customer_id) matched_df;
            total_earned = total_amount ''earned'' customer_df;
            total_spent = \<bar>total_amount ''spent'' customer_df\<bar>;
            total_expired = \<bar>total_amount ''expired'' customer_df\<bar>;
            remaining = total_earned - total_spent - total_expired
        in remaining < - (1 / 100))
       (unique (map CUSTOMERID matched_df))"

definition balance_check :: "txn list \<Rightarrow> ValidationResult" where
  "balance_check matched_df =
     \<lparr>check_name = ''Customer Balance Reconciliation'',
      passed = (length (balance_errors matched_df) = 0), severity = ''WARNING''\<rparr>"

definition statistics_check :: ValidationResult where
  "statistics_check =
     \<lparr>check_name = ''Matching Statistics'', passed = True, severity = ''INFO''\<rparr>"

text \<open>
  The validator: check 1 tests for the column; without it the report is returned at
  once. The first argument (the original frame) is not read by the source either.
\<close>

definition validate_fifo_results :: "int \<Rightarrow> frame \<Rightarrow> frame \<Rightarrow> ValidationReport" where
  "validate_fifo_results now original_df matched_df =
     (let has_redeemid = has_REDEEMID matched_df;
          results1 = [\<lparr>check_name = ''REDEEMID Column Exists'', passed = has_redeemid,
                       severity = ''ERROR''\<rparr>]
      in if \<not> has_redeemid then
           \<lparr>timestamp = now, stage = ''post_fifo'', results = results1\<rparr>
         else
           \<lparr>timestamp = now, stage = ''post_fifo'',
            results = results1 @
              [redeemid_valid_check (rows matched_df),
               only_earned_check (rows matched_df),
               chronological_check (rows matched_df),
               balance_check (rows matched_df),
               statistics_check]\<rparr>)"

section \<open>FIFO allocation engine (perform_fifo_matching)\<close>

text \<open>
  Two statements of the inner loop address rows by label. The read
  \<^verbatim>\<open>earned_row = earned_txns.loc[earned_idx]\<close> gives the row when one row of
  \<^verbatim>\<open>earned_txns\<close> has the label; when several have it, it gives a frame, the comparison
  \<^verbatim>\<open>earned_date > redemption_date\<close> is then a column of booleans, and testing it in
  \<^verbatim>\<open>if\<close> raises pandas' ValueError ("the truth value of a Series is ambiguous"). A label
  that no row has would raise KeyError.
\<close>

datatype pandas_error = KeyError | ValueError_ambiguous

definition loc :: "txn list \<Rightarrow> int \<Rightarrow> pandas_error + txn" where
  "loc earned_txns earned_idx =
     (case filter (\<lambda>r. index_label r = earned_idx) earned_txns of
        [] \<Rightarrow> Inl KeyError
      | [earned_row] \<Rightarrow> Inr earned_row
      | _ \<Rightarrow> Inl ValueError_ambiguous)"

text \<open>
  The write \<^verbatim>\<open>result_df.loc[earned_idx, 'REDEEMID'] = redemption_id\<close> sets the column on
  every row of \<^verbatim>\<open>result_df\<close> that has the label.
\<close>

definition set_REDEEMID :: "int \<Rightarrow> int \<Rightarrow> txn list \<Rightarrow> txn list" where
  "set_REDEEMID earned_idx redemption_id result_df =
     map (\<lambda>r. if index_label r = earned_idx then r\<lparr>REDEEMID := Some redemption_id\<rparr> else r)
       result_df"

text \<open>
  The inner loop, over the labels still available, for one redemption:
  \<^verbatim>\<open>
  for earned_idx in available_earned_indices:
      if remaining_to_match <= 0: break
      earned_row = earned_txns.loc[earned_idx]
      if earned_row['CREATEDAT'] > redemption_date: continue
      result_df.loc[earned_idx, 'REDEEMID'] = redemption_id
      remaining_to_match -= earned_row['AMOUNT']
      indices_to_remove.append(earned_idx)
  \<close>
  The state is the amount still to match, the labels to remove and \<^verbatim>\<open>result_df\<close>. The two
  counters of the source (total_matches, unmatched_redemptions) only feed the log and
  are not part of the returned frame.
\<close>

fun scan_lots ::
  "txn list \<Rightarrow> int \<Rightarrow> int \<Rightarrow> int list \<Rightarrow> rat \<Rightarrow> int list \<Rightarrow> txn list
     \<Rightarrow> pandas_error + rat \<times> int list \<times> txn list" where
  "scan_lots earned_txns redemption_id redemption_date [] remaining_to_match
       indices_to_remove result_df = Inr (remaining_to_match, indices_to_remove, result_df)"
| "scan_lots earned_txns redemption_id redemption_date (earned_idx # rest) remaining_to_match
       indices_to_remove result_df =
     (if remaining_to_match \<le> 0 then Inr (remaining_to_match, indices_to_remove, result_df)
      else
        case loc earned_txns earned_idx of
          Inl err \<Rightarrow> Inl err
        | Inr earned_row \<Rightarrow>
            if CREATEDAT earned_row > redemption_date then
              scan_lots earned_txns redemption_id redemption_date rest remaining_to_match
                indices_to_remove result_df
            else
              scan_lots earned_txns redemption_id redemption_date rest
                (remaining_to_match - AMOUNT earned_row)
                (indices_to_remove @ [earned_idx])
                (set_REDEEMID earned_idx redemption_id result_df))"

text \<open>
  The loop over the customer's redemptions, in sorted order (\<^verbatim>\<open>iterrows()\<close> hands out the
  rows themselves); after each one the matched labels leave the pool
  (\<^verbatim>\<open>available_earned_indices.remove(idx)\<close> for each of them).
\<close>

fun match_redemptions ::
  "txn list \<Rightarrow> txn list \<Rightarrow> int list \<Rightarrow> txn list \<Rightarrow> pandas_error + txn list" where
  "match_redemptions earned_txns [] available_earned_indices result_df = Inr result_df"
| "match_redemptions earned_txns (redemption # rest) available_earned_indices result_df =
     (let redemption_id = TRANS_ID redemption;
          redemption_amount = \<bar>AMOUNT redemption\<bar>;
          redemption_date = CREATEDAT redemption
      in case scan_lots earned_txns redemption_id redemption_date available_earned_indices
                redemption_amount [] result_df of
           Inl err \<Rightarrow> Inl err
         | Inr (remaining_to_match, indices_to_remove, result_df') \<Rightarrow>
             match_redemptions earned_txns rest
               (fold remove1 indices_to_remove available_earned_indices) result_df')"

text \<open>
  \<^verbatim>\<open>sort_values('CREATEDAT')\<close> sorts the rows of a frame by one column: pandas computes a
  permutation from the values of that column alone (numpy's argsort, here with the
  default \<^verbatim>\<open>kind='quicksort'\<close>) and takes the rows in that order. The result is ascending,
  but this kind of sort fixes no order among equal values. The sorting routine is
  therefore a parameter of the engine: \<open>argsort ks\<close> lists the positions of \<open>ks\<close> in
  sorted order, and \<open>is_argsort\<close> states what every such routine does. One of them is
  \<open>stable_argsort\<close>, which keeps equal values in their order of appearance.
\<close>

definition sort_values :: "(int list \<Rightarrow> nat list) \<Rightarrow> ('a \<Rightarrow> int) \<Rightarrow> 'a list \<Rightarrow> 'a list" where
  "sort_values argsort key df = map (nth df) (argsort (map key df))"

definition is_argsort :: "(int list \<Rightarrow> nat list) \<Rightarrow> bool" where
  "is_argsort argsort \<longleftrightarrow>
     (\<forall>ks. distinct (argsort ks) \<and> set (argsort ks) = {..<length ks}
         \<and> sorted (map (nth ks) (argsort ks)))"

definition stable_argsort :: "int list \<Rightarrow> nat list" where
  "stable_argsort ks = sort_key (nth ks) [0 ..< length ks]"

text \<open>
  One pass of the loop over the customers: the customer's rows are copied out of
  \<^verbatim>\<open>result_df\<close>, its earned rows and its redemption rows are sorted by CREATEDAT, and the
  pool starts as the labels of the sorted earned rows. A customer without lots or
  without redemptions is skipped.
\<close>

definition match_customer ::
  "(int list \<Rightarrow> nat list) \<Rightarrow> int \<Rightarrow> txn list \<Rightarrow> pandas_error + txn list" where
  "match_customer argsort customer_id result_df =
     (let customer_df = filter (\<lambda>r. CUSTOMERID r = customer_id) result_df;
          earned_txns = sort_values argsort CREATEDAT
                          (filter (\<lambda>r. TCTYPE r = ''earned'') customer_df);
          redemption_txns = sort_values argsort CREATEDAT (filter is_redemption customer_df)
      in if length earned_txns = 0 \<or> length redemption_txns = 0 then Inr result_df
         else
           let available_earned_indices = map index_label earned_txns
           in match_redemptions earned_txns redemption_txns available_earned_indices result_df)"

text \<open>The loop over the customers; an exception ends it.\<close>

fun match_customers ::
  "(int list \<Rightarrow> nat list) \<Rightarrow> int list \<Rightarrow> txn list \<Rightarrow> pandas_error + txn list" where
  "match_customers argsort [] result_df = Inr result_df"
| "match_customers argsort (customer_id # rest) result_df =
     (case match_customer argsort customer_id result_df of
        Inl err \<Rightarrow> Inl err
      | Inr result_df' \<Rightarrow> match_customers argsort rest result_df')"

text \<open>
  The engine: copy the frame, set the whole REDEEMID column to null (adding it when it
  is missing), then treat the customers in order of first appearance.
\<close>

definition clear_REDEEMID :: "txn \<Rightarrow> txn" where
  "clear_REDEEMID r = r\<lparr>REDEEMID := None\<rparr>"

definition perform_fifo_matching :: "(int list \<Rightarrow> nat list) \<Rightarrow> frame \<Rightarrow> pandas_error + frame" where
  "perform_fifo_matching argsort df =
     (let result_df = map clear_REDEEMID (rows df);
          customers = unique (map CUSTOMERID result_df)
      in case match_customers argsort customers result_df of
           Inl err \<Rightarrow> Inl err
         | Inr result_df' \<Rightarrow> Inr \<lparr>rows = result_df', has_REDEEMID = True\<rparr>)"

section \<open>Test fixtures (tests/test_fifo_matching.py)\<close>

text \<open>
  The frames of the test suite, used below as concrete inputs. They are built by
  \<^verbatim>\<open>pd.DataFrame(data)\<close>, so their labels are 0, 1, 2, ... Timestamps are written in
  nanoseconds since the epoch (2023-01-01 10:00:00 is 1672567200 seconds).
\<close>

definition sample_tc_data :: frame where
  "sample_tc_data =
     \<lparr>rows =
        [\<lparr>index_label = 0, TRANS_ID = 1001, TCTYPE = ''earned'', CREATEDAT = 1672567200000000000,
          EXPIREDAT = Some 1677628800000000000, CUSTOMERID = 100, ORDERID = None,
          AMOUNT = 20, REASON = Some ''Promotion'', REDEEMID = None\<rparr>,
         \<lparr>index_label = 1, TRANS_ID = 1002, TCTYPE = ''earned'', CREATEDAT = 1673776800000000000,
          EXPIREDAT = Some 1678838400000000000, CUSTOMERID = 100, ORDERID = None,
          AMOUNT = 30, REASON = Some ''Refund'', REDEEMID = None\<rparr>,
         \<lparr>index_label = 2, TRANS_ID = 1003, TCTYPE = ''spent'', CREATEDAT = 1675245600000000000,
          EXPIREDAT = None, CUSTOMERID = 100, ORDERID = Some 5001,
          AMOUNT = - 25, REASON = None, REDEEMID = None\<rparr>],
      has_REDEEMID = False\<rparr>"

definition multi_customer_data :: frame where
  "multi_customer_data =
     \<lparr>rows =
        [\<lparr>index_label = 0, TRANS_ID = 1001, TCTYPE = ''earned'', CREATEDAT = 1672531200000000000,
          EXPIREDAT = None, CUSTOMERID = 100, ORDERID = None,
          AMOUNT = 20, REASON = None, REDEEMID = None\<rparr>,
         \<lparr>index_label = 1, TRANS_ID = 1002, TCTYPE = ''spent'', CREATEDAT = 1675209600000000000,
          EXPIREDAT = None, CUSTOMERID = 100, ORDERID = Some 5001,
          AMOUNT = - 15, REASON = None, REDEEMID = None\<rparr>,
         \<lparr>index_label = 2, TRANS_ID = 1003, TCTYPE = ''earned'', CREATEDAT = 1672876800000000000,
          EXPIREDAT = None, CUSTOMERID = 200, ORDERID = None,
          AMOUNT = 50, REASON = None, REDEEMID = None\<rparr>,
         \<lparr>index_label = 3, TRANS_ID = 2001, TCTYPE = ''earned'', CREATEDAT = 1673308800000000000,
          EXPIREDAT = None, CUSTOMERID = 200, ORDERID = None,
          AMOUNT = 25, REASON = None, REDEEMID = None\<rparr>,
         \<lparr>index_label = 4, TRANS_ID = 2002, TCTYPE = ''spent'', CREATEDAT = 1676419200000000000,
          EXPIREDAT = None, CUSTOMERID = 200, ORDERID = Some 5002,
          AMOUNT = - 60, REASON = None, REDEEMID = None\<rparr>,
         \<lparr>index_label = 5, TRANS_ID = 2003, TCTYPE = ''earned'', CREATEDAT = 1672531200000000000,
          EXPIREDAT = None, CUSTOMERID = 100, ORDERID = None,
          AMOUNT = 10, REASON = None, REDEEMID = None\<rparr>],
      has_REDEEMID = False\<rparr>"

text \<open>The first fixture as the Source Validator sees it (CUSTOMERID is an int64 column).\<close>

definition sample_tc_raw :: raw_frame where
  "sample_tc_raw =
     \<lparr>raw_rows =
        [\<lparr>raw_TRANS_ID = Some 1001, raw_TCTYPE = Some ''earned'',
          raw_CREATEDAT = Some 1672567200000000000, raw_CUSTOMERID = Some 100,
          raw_AMOUNT = Some 20\<rparr>,
         \<lparr>raw_TRANS_ID = Some 1002, raw_TCTYPE = Some ''earned'',
          raw_CREATEDAT = Some 1673776800000000000, raw_CUSTOMERID = Some 100,
          raw_AMOUNT = Some 30\<rparr>,
         \<lparr>raw_TRANS_ID = Some 1003, raw_TCTYPE = Some ''spent'',
          raw_CREATEDAT = Some 1675245600000000000, raw_CUSTOMERID = Some 100,
          raw_AMOUNT = Some (- 25)\<rparr>],
      CUSTOMERID_dtype = ''int64''\<rparr>"

text \<open>
  Frames with repeated labels. The first is \<^verbatim>\<open>pd.concat\<close> of the rows of customer 100 and
  the rows of customer 200 of the multi-customer fixture, each part a frame of its own
  with the labels 0, 1, 2; the second holds the rows of customer 100 alone. The third is
  \<^verbatim>\<open>pd.concat\<close> of a one-row frame and a two-row frame: an earned row of customer 100
  dated 2024-01-01, then an earned row (2023-01-01) and a spent row (2023-02-01) of
  customer 200.
\<close>

definition concat_by_customer :: frame where
  "concat_by_customer =
     \<lparr>rows =
        [\<lparr>index_label = 0, TRANS_ID = 1001, TCTYPE = ''earned'', CREATEDAT = 1672531200000000000,
          EXPIREDAT = None, CUSTOMERID = 100, ORDERID = None,
          AMOUNT = 20, REASON = None, REDEEMID = None\<rparr>,
         \<lparr>index_label = 1, TRANS_ID = 1002, TCTYPE = ''spent'', CREATEDAT = 1675209600000000000,
          EXPIREDAT = None, CUSTOMERID = 100, ORDERID = Some 5001,
          AMOUNT = - 15, REASON = None, REDEEMID = None\<rparr>,
         \<lparr>index_label = 2, TRANS_ID = 2003, TCTYPE = ''earned'', CREATEDAT = 1672531200000000000,
          EXPIREDAT = None, CUSTOMERID = 100, ORDERID = None,
          AMOUNT = 10, REASON = None, REDEEMID = None\<rparr>,
         \<lparr>index_label = 0, TRANS_ID = 1003, TCTYPE = ''earned'', CREATEDAT = 1672876800000000000,
          EXPIREDAT = None, CUSTOMERID = 200, ORDERID = None,
          AMOUNT = 50, REASON = None, REDEEMID = None\<rparr>,
         \<lparr>index_label = 1, TRANS_ID = 2001, TCTYPE = ''earned'', CREATEDAT = 1673308800000000000,
          EXPIREDAT = None, CUSTOMERID = 200, ORDERID = None,
          AMOUNT = 25, REASON = None, REDEEMID = None\<rparr>,
         \<lparr>index_label = 2, TRANS_ID = 2002, TCTYPE = ''spent'', CREATEDAT = 1676419200000000000,
          EXPIREDAT = None, CUSTOMERID = 200, ORDERID = Some 5002,
          AMOUNT = - 60, REASON = None, REDEEMID = None\<rparr>],
      has_REDEEMID = False\<rparr>"

definition customer_100_alone :: frame where
  "customer_100_alone =
     \<lparr>rows = filter (\<lambda>r. CUSTOMERID r = 100) (rows concat_by_customer), has_REDEEMID = False\<rparr>"

definition concat_shared_label :: frame where
  "concat_shared_label =
     \<lparr>rows =
        [\<lparr>index_label = 0, TRANS_ID = 1, TCTYPE = ''earned'', CREATEDAT = 1704067200000000000,
          EXPIREDAT = None, CUSTOMERID = 100, ORDERID = None,
          AMOUNT = 20, REASON = None, REDEEMID = None\<rparr>,
         \<lparr>index_label = 0, TRANS_ID = 2, TCTYPE = ''earned'', CREATEDAT = 1672531200000000000,
          EXPIREDAT = None, CUSTOMERID = 200, ORDERID = None,
          AMOUNT = 20, REASON = None, REDEEMID = None\<rparr>,
         \<lparr>index_label = 1, TRANS_ID = 3, TCTYPE = ''spent'', CREATEDAT = 1675209600000000000,
          EXPIREDAT = None, CUSTOMERID = 200, ORDERID = Some 5001,
          AMOUNT = - 15, REASON = None, REDEEMID = None\<rparr>],
      has_REDEEMID = False\<rparr>"

text \<open>
  A raw frame whose CUSTOMERID column has dtype int32 and holds -1 (as
  \<^verbatim>\<open>df.astype({'CUSTOMERID': 'int32'})\<close> gives), and the same rows in an int64 column.
\<close>

definition int32_customer_ids :: raw_frame where
  "int32_customer_ids =
     \<lparr>raw_rows = [\<lparr>raw_TRANS_ID = Some 1, raw_TCTYPE = Some ''earned'', raw_CREATEDAT = Some 0,
                   raw_CUSTOMERID = Some (- 1), raw_AMOUNT = Some 20\<rparr>],
      CUSTOMERID_dtype = ''int32''\<rparr>"

definition int64_customer_ids :: raw_frame where
  "int64_customer_ids = int32_customer_ids\<lparr>CUSTOMERID_dtype := ''int64''\<rparr>"

section \<open>Notions used in the statements\<close>

text \<open>
  What an observer reads off a run of the engine: the exception, or the TRANS_ID and
  the REDEEMID of every row of the returned frame, in order.
\<close>

definition annotations :: "pandas_error + frame \<Rightarrow> pandas_error + (int \<times> int option) list" where
  "annotations result =
     (case result of
        Inl err \<Rightarrow> Inl err
      | Inr out \<Rightarrow> Inr (map (\<lambda>r. (TRANS_ID r, REDEEMID r)) (rows out)))"

text \<open>
  No customer has two earned rows under one label. On such a frame every read
  \<^verbatim>\<open>earned_txns.loc[earned_idx]\<close> finds one row. Labels may still repeat between customers,
  and between a customer's earned rows and its other rows.
\<close>

definition earned_labels_unique :: "txn list \<Rightarrow> bool" where
  "earned_labels_unique df \<longleftrightarrow>
     list_all (\<lambda>c. distinct (map index_label
                  (filter (\<lambda>r. TCTYPE r = ''earned'') (filter (\<lambda>r. CUSTOMERID r = c) df))))
       (unique (map CUSTOMERID df))"

text \<open>
  The temporal guard on one row of a frame: a row with a REDEEMID is an earned row, and
  some spent or expired row of the same customer has that TRANS_ID and is dated no
  earlier than the row.
\<close>

definition guarded :: "txn list \<Rightarrow> txn \<Rightarrow> bool" where
  "guarded df r \<longleftrightarrow>
     (case REDEEMID r of
        None \<Rightarrow> True
      | Some redemption_id \<Rightarrow>
          TCTYPE r = ''earned''
          \<and> (\<exists>s \<in> set df. TRANS_ID s = redemption_id \<and> is_redemption s
                \<and> CUSTOMERID s = CUSTOMERID r \<and> CREATEDAT r \<le> CREATEDAT s))"

section \<open>Properties of the report model\<close>

text \<open>
  C5. The derived \<open>passed\<close> of a report is true exactly when every result of severity
  ERROR has passed; a failed result of severity WARNING or INFO (indeed of any severity
  other than ERROR) cannot turn the verdict: appending such a result anywhere leaves
  the verdict as it was.
\<close>

theorem report_passed_iff_errors_passed:
  "(report_passed rep \<longleftrightarrow>
      (\<forall>r \<in> set (results rep). severity r = ''ERROR'' \<longrightarrow> passed r))
   \<and> (severity w \<noteq> ''ERROR'' \<longrightarrow>
        report_passed (rep\<lparr>results := xs @ w # ys\<rparr>)
          = report_passed (rep\<lparr>results := xs @ ys\<rparr>))"
  by (auto simp: report_passed_def list_all_iff)

theorem report_passed_iff_errors_passed_witness:
  "report_passed \<lparr>timestamp = 0, stage = ''source'',
      results = [\<lparr>check_name = ''a'', passed = True, severity = ''ERROR''\<rparr>,
                 \<lparr>check_name = ''b'', passed = False, severity = ''WARNING''\<rparr>,
                 \<lparr>check_name = ''c'', passed = False, severity = ''INFO''\<rparr>]\<rparr>
   \<and> \<not> report_passed \<lparr>timestamp = 0, stage = ''source'',
      results = [\<lparr>check_name = ''a'', passed = False, severity = ''ERROR''\<rparr>,
                 \<lparr>check_name = ''b'', passed = True, severity = ''WARNING''\<rparr>]\<rparr>"
  using report_passed_iff_errors_passed
          [of "\<lparr>timestamp = 0, stage = ''source'',
      results = [\<lparr>check_name = ''a'', passed = True, severity = ''ERROR''\<rparr>,
                 \<lparr>check_name = ''b'', passed = False, severity = ''WARNING''\<rparr>,
                 \<lparr>check_name = ''c'', passed = False, severity = ''INFO''\<rparr>]\<rparr>"
              "\<lparr>check_name = ''b'', passed = False, severity = ''WARNING''\<rparr>" "[]" "[]"]
        report_passed_iff_errors_passed
          [of "\<lparr>timestamp = 0, stage = ''source'',
      results = [\<lparr>check_name = ''a'', passed = False, severity = ''ERROR''\<rparr>,
                 \<lparr>check_name = ''b'', passed = True, severity = ''WARNING''\<rparr>]\<rparr>"
              "\<lparr>check_name = ''b'', passed = False, severity = ''WARNING''\<rparr>" "[]" "[]"]
  by simp

text \<open>
  C6. The gate raises (the error carrying stage and error count) exactly when
  \<open>fail_on_error\<close> is set and the report has not passed; in every other case it returns
  the report's verdict.
\<close>

theorem validation_gate_contract:
  "validation_gate report fail_on_error =
     (if fail_on_error \<and> \<not> report_passed report
      then Inl (ValueError (stage report) (error_count report))
      else Inr (report_passed report))"
  by (simp add: validation_gate_def)

theorem validation_gate_contract_witness:
  "validation_gate \<lparr>timestamp = 0, stage = ''post_fifo'',
      results = [\<lparr>check_name = ''a'', passed = False, severity = ''ERROR''\<rparr>]\<rparr> True
     = Inl (ValueError ''post_fifo'' 1)
   \<and> validation_gate \<lparr>timestamp = 0, stage = ''post_fifo'',
      results = [\<lparr>check_name = ''a'', passed = False, severity = ''ERROR''\<rparr>]\<rparr> False
     = Inr False
   \<and> validation_gate \<lparr>timestamp = 0, stage = ''post_fifo'',
      results = [\<lparr>check_name = ''a'', passed = False, severity = ''WARNING''\<rparr>]\<rparr> True
     = Inr True"
  using validation_gate_contract
          [of "\<lparr>timestamp = 0, stage = ''post_fifo'',
      results = [\<lparr>check_name = ''a'', passed = False, severity = ''ERROR''\<rparr>]\<rparr>" True]
        validation_gate_contract
          [of "\<lparr>timestamp = 0, stage = ''post_fifo'',
      results = [\<lparr>check_name = ''a'', passed = False, severity = ''ERROR''\<rparr>]\<rparr>" False]
        validation_gate_contract
          [of "\<lparr>timestamp = 0, stage = ''post_fifo'',
      results = [\<lparr>check_name = ''a'', passed = False, severity = ''WARNING''\<rparr>]\<rparr>" True]
  by (simp add: report_passed_def error_count_def)

section \<open>Properties of the Source Validator\<close>

lemma na_gt_iff: "na_gt v b \<longleftrightarrow> (\<exists>a. v = Some a \<and> a > b)"
  by (cases v) simp_all

lemma na_lt_iff: "na_lt v b \<longleftrightarrow> (\<exists>a. v = Some a \<and> a < b)"
  by (cases v) simp_all

lemma na_le_iff: "na_le v b \<longleftrightarrow> (\<exists>a. v = Some a \<and> a \<le> b)"
  by (cases v) simp_all

lemma sign_check_passed_iff:
  "passed (sign_check df) \<longleftrightarrow>
     (\<forall>r \<in> set df.
        (raw_TCTYPE r = Some ''earned'' \<longrightarrow> (\<exists>a. raw_AMOUNT r = Some a \<and> a > 0))
      \<and> (raw_TCTYPE r = Some ''spent'' \<longrightarrow> (\<exists>a. raw_AMOUNT r = Some a \<and> a < 0))
      \<and> (raw_TCTYPE r = Some ''expired'' \<longrightarrow> (\<exists>a. raw_AMOUNT r = Some a \<and> a < 0)))"
  unfolding sign_check_def Let_def list_all_iff na_gt_iff na_lt_iff by auto

text \<open>
  C7. The sign-consistency check contributes exactly one result to the report, whatever
  the batch; its severity is ERROR, and it passes exactly when every earned amount is
  strictly positive, every spent amount strictly negative and every expired amount
  strictly negative (a missing amount is neither).
\<close>

theorem sign_consistency_check:
  "filter (\<lambda>r. check_name r = ''Amount Sign Consistency'')
       (results (validate_source_data now now' df)) = [sign_check (raw_rows df)]
   \<and> severity (sign_check (raw_rows df)) = ''ERROR''
   \<and> (passed (sign_check (raw_rows df)) \<longleftrightarrow>
        (\<forall>r \<in> set (raw_rows df).
           (raw_TCTYPE r = Some ''earned'' \<longrightarrow> (\<exists>a. raw_AMOUNT r = Some a \<and> a > 0))
         \<and> (raw_TCTYPE r = Some ''spent'' \<longrightarrow> (\<exists>a. raw_AMOUNT r = Some a \<and> a < 0))
         \<and> (raw_TCTYPE r = Some ''expired'' \<longrightarrow> (\<exists>a. raw_AMOUNT r = Some a \<and> a < 0))))"
proof (intro conjI)
  have n: "check_name (null_check f col) = ''No Null Values: '' @ f" for f and col :: "'b option list"
    by (simp add: null_check_def)
  show "filter (\<lambda>r. check_name r = ''Amount Sign Consistency'')
       (results (validate_source_data now now' df)) = [sign_check (raw_rows df)]"
    by (simp add: validate_source_data_def n valid_types_check_def
        duplicate_check_def future_dates_check_def customer_id_check_def summary_check_def Let_def)
      (simp add: sign_check_def)
  show "severity (sign_check (raw_rows df)) = ''ERROR''" by (simp add: sign_check_def)
  show "passed (sign_check (raw_rows df)) \<longleftrightarrow>
        (\<forall>r \<in> set (raw_rows df).
           (raw_TCTYPE r = Some ''earned'' \<longrightarrow> (\<exists>a. raw_AMOUNT r = Some a \<and> a > 0))
         \<and> (raw_TCTYPE r = Some ''spent'' \<longrightarrow> (\<exists>a. raw_AMOUNT r = Some a \<and> a < 0))
         \<and> (raw_TCTYPE r = Some ''expired'' \<longrightarrow> (\<exists>a. raw_AMOUNT r = Some a \<and> a < 0)))"
    by (rule sign_check_passed_iff)
qed

theorem sign_consistency_check_witness:
  "filter (\<lambda>r. check_name r = ''Amount Sign Consistency'')
       (results (validate_source_data 0 0 sample_tc_raw)) = [sign_check (raw_rows sample_tc_raw)]
   \<and> passed (sign_check (raw_rows sample_tc_raw))
   \<and> \<not> passed (sign_check
         [\<lparr>raw_TRANS_ID = Some 1, raw_TCTYPE = Some ''spent'', raw_CREATEDAT = Some 0,
           raw_CUSTOMERID = Some 100, raw_AMOUNT = Some 5\<rparr>])"
proof -
  let ?bad = "\<lparr>raw_rows = [\<lparr>raw_TRANS_ID = Some 1, raw_TCTYPE = Some ''spent'',
      raw_CREATEDAT = Some 0, raw_CUSTOMERID = Some 100, raw_AMOUNT = Some (5::rat)\<rparr>],
      CUSTOMERID_dtype = ''int64''\<rparr>"
  have "passed (sign_check (raw_rows sample_tc_raw))"
    using sign_consistency_check[of 0 0 sample_tc_raw] by (simp add: sample_tc_raw_def)
  moreover have "\<not> passed (sign_check (raw_rows ?bad))"
    using sign_consistency_check[of 0 0 ?bad] by simp
  ultimately show ?thesis using sign_consistency_check[of 0 0 sample_tc_raw] by simp
qed

text \<open>
  C9. The claim holds of a CUSTOMERID column of dtype int64, and fails of the same values
  in a column of dtype int32: the source compares with 0 only when the dtype is named
  int64 or float64, and otherwise takes the list of invalid customers to be empty, so
  the tenth result of the report, the valid-customer-id check, passes on a customer id
  of -1 (with the message that all customer ids are valid positive numbers).
\<close>

theorem customer_id_check_int32:
  "map check_name (results (validate_source_data 0 0 int32_customer_ids)) ! 9 = ''Valid Customer IDs''
   \<and> raw_CUSTOMERID (raw_rows int32_customer_ids ! 0) = Some (- 1)
   \<and> passed (results (validate_source_data 0 0 int32_customer_ids) ! 9)
   \<and> raw_rows int64_customer_ids = raw_rows int32_customer_ids
   \<and> \<not> passed (results (validate_source_data 0 0 int64_customer_ids) ! 9)"
  by (simp add: validate_source_data_def customer_id_check_def null_check_def
      valid_types_check_def sign_check_def duplicate_check_def future_dates_check_def
      summary_check_def int32_customer_ids_def int64_customer_ids_def)

section \<open>Properties of the Result Validator\<close>

text \<open>
  C8. On an annotated frame without the REDEEMID column the Result Validator returns a
  report with exactly one result, the failed column check of severity ERROR, and the
  report has not passed; none of the other five checks is in the report.
\<close>

theorem missing_column_report:
  assumes "\<not> has_REDEEMID matched_df"
  shows "results (validate_fifo_results now original_df matched_df)
           = [\<lparr>check_name = ''REDEEMID Column Exists'', passed = False, severity = ''ERROR''\<rparr>]
       \<and> length (results (validate_fifo_results now original_df matched_df)) = 1
       \<and> \<not> report_passed (validate_fifo_results now original_df matched_df)"
  using assms by (simp add: validate_fifo_results_def report_passed_def Let_def)

theorem missing_column_report_witness:
  "\<not> has_REDEEMID sample_tc_data
   \<and> results (validate_fifo_results 0 sample_tc_data sample_tc_data)
       = [\<lparr>check_name = ''REDEEMID Column Exists'', passed = False, severity = ''ERROR''\<rparr>]
   \<and> \<not> report_passed (validate_fifo_results 0 sample_tc_data sample_tc_data)"
proof -
  have h: "\<not> has_REDEEMID sample_tc_data" by (simp add: sample_tc_data_def)
  show ?thesis using missing_column_report[OF h, of 0 sample_tc_data] h by simp
qed

section \<open>Properties of the allocation engine\<close>

subsection \<open>The sorting routine\<close>

lemma is_argsort_stable: "is_argsort stable_argsort"
  unfolding is_argsort_def stable_argsort_def
  by (auto simp: sorted_sort_key)

lemma set_sort_values:
  assumes "is_argsort argsort"
  shows "set (sort_values argsort key df) = set df"
proof -
  have "set (argsort (map key df)) = {..<length df}"
    using assms unfolding is_argsort_def by (metis length_map)
  then have "set (sort_values argsort key df) = nth df ` {..<length df}"
    by (simp add: sort_values_def)
  also have "\<dots> = set df" by (auto simp: set_conv_nth)
  finally show ?thesis .
qed

lemma distinct_map_sort_values:
  assumes "is_argsort argsort" "distinct (map f df)"
  shows "distinct (map f (sort_values argsort key df))"
proof -
  let ?p = "argsort (map key df)"
  have d: "distinct ?p" and s: "set ?p = {..<length df}"
    using assms(1) unfolding is_argsort_def by (metis, metis length_map)
  have "inj_on (\<lambda>k. f (df ! k)) (set ?p)"
  proof (rule inj_onI)
    fix i j assume "i \<in> set ?p" "j \<in> set ?p" "f (df ! i) = f (df ! j)"
    then have "i < length (map f df)" "j < length (map f df)" "map f df ! i = map f df ! j"
      using s by auto
    then show "i = j" using assms(2) nth_eq_iff_index_eq[of "map f df" i j] by blast
  qed
  then have "distinct (map (\<lambda>k. f (df ! k)) ?p)" using d by (simp add: distinct_map)
  then show ?thesis by (simp add: sort_values_def comp_def)
qed

lemma argsort_small:
  assumes "is_argsort argsort"
  shows "argsort [] = []" "argsort [x] = [0]"
    "x < y \<Longrightarrow> argsort [x, y] = [0, 1]" "y < x \<Longrightarrow> argsort [x, y] = [1, 0]"
proof -
  have d: "distinct (argsort ks)" and s: "set (argsort ks) = {..<length ks}"
    and o: "sorted (map (nth ks) (argsort ks))" for ks
    using assms unfolding is_argsort_def by blast+
  have l: "length (argsort ks) = length ks" for ks
  proof -
    have "length (argsort ks) = card (set (argsort ks))" using d[of ks] by (simp add: distinct_card)
    also have "\<dots> = length ks" by (simp only: s card_lessThan)
    finally show ?thesis .
  qed
  show "argsort [] = []" using l[of "[]"] by simp
  show "argsort [x] = [0]"
  proof -
    have "length (argsort [x]) = Suc 0" using l[of "[x]"] by simp
    then obtain a where a: "argsort [x] = [a]" by (auto simp: length_Suc_conv)
    have "a \<in> {..<length [x]}" using s[of "[x]"] a by (metis list.set_intros(1))
    then have "a = 0" by simp
    then show ?thesis using a by simp
  qed
  have two: "argsort [u, v] = [0, 1] \<or> argsort [u, v] = [1, 0]" for u v
  proof -
    have "length (argsort [u, v]) = Suc (Suc 0)" using l[of "[u, v]"] by simp
    then obtain a b where ab: "argsort [u, v] = [a, b]" by (auto simp: length_Suc_conv)
    have "a \<in> {..<length [u, v]}" "b \<in> {..<length [u, v]}"
      using s[of "[u, v]"] ab by (metis list.set_intros(1), metis list.set_intros(1,2))
    then have r: "a < 2" "b < 2" by simp_all
    have n: "a \<noteq> b" using d[of "[u, v]"] ab by simp
    have "(a = 0 \<and> b = 1) \<or> (a = 1 \<and> b = 0)" using r n by arith
    then show ?thesis using ab by auto
  qed
  have srt2: "sorted (map (nth [u, v]) (argsort [u, v]))" for u v by (rule o)
  show "argsort [x, y] = [0, 1]" if "x < y"
  proof (rule disjE[OF two[of x y]])
    assume "argsort [x, y] = [0, 1]" then show ?thesis .
  next
    assume r: "argsort [x, y] = [1, 0]"
    have "sorted (map (nth [x, y]) [1, 0])" using srt2[of x y] by (simp only: r)
    then have "y \<le> x" by simp
    then show ?thesis using that by simp
  qed
  show "argsort [x, y] = [1, 0]" if "y < x"
  proof (rule disjE[OF two[of x y]])
    assume "argsort [x, y] = [1, 0]" then show ?thesis .
  next
    assume r: "argsort [x, y] = [0, 1]"
    have "sorted (map (nth [x, y]) [0, 1])" using srt2[of x y] by (simp only: r)
    then have "x \<le> y" by simp
    then show ?thesis using that by simp
  qed
qed

subsection \<open>Only the REDEEMID column is written\<close>

lemma clear_REDEEMID_update: "clear_REDEEMID (r\<lparr>REDEEMID := v\<rparr>) = clear_REDEEMID r"
  by (simp add: clear_REDEEMID_def)

lemma clear_REDEEMID_idem: "clear_REDEEMID (clear_REDEEMID r) = clear_REDEEMID r"
  by (simp add: clear_REDEEMID_def)

lemma set_REDEEMID_clear:
  "map clear_REDEEMID (set_REDEEMID earned_idx rid res) = map clear_REDEEMID res"
  by (induction res) (simp_all add: set_REDEEMID_def clear_REDEEMID_update)

lemma scan_lots_clear:
  "scan_lots ea rid rdate pool rem rm res = Inr (a, b, c)
     \<Longrightarrow> map clear_REDEEMID c = map clear_REDEEMID res"
proof (induction pool arbitrary: rem rm res)
  case Nil
  then show ?case by simp
next
  case (Cons l pool)
  show ?case
  proof (cases "rem \<le> 0")
    case True
    then show ?thesis using Cons.prems by simp
  next
    case False
    then obtain row where row: "loc ea l = Inr row"
      using Cons.prems by (cases "loc ea l") simp_all
    show ?thesis
    proof (cases "CREATEDAT row > rdate")
      case True
      then show ?thesis using False row Cons.prems Cons.IH[of rem rm res] by simp
    next
      case late: False
      have "map clear_REDEEMID c = map clear_REDEEMID (set_REDEEMID l rid res)"
        using False row late Cons.prems
          Cons.IH[of "rem - AMOUNT row" "rm @ [l]" "set_REDEEMID l rid res"] by simp
      then show ?thesis by (simp add: set_REDEEMID_clear)
    qed
  qed
qed

lemma match_redemptions_clear:
  "match_redemptions ea reds pool res = Inr out
     \<Longrightarrow> map clear_REDEEMID out = map clear_REDEEMID res"
proof (induction reds arbitrary: pool res)
  case Nil
  then show ?case by simp
next
  case (Cons r reds)
  obtain a b c where s: "scan_lots ea (TRANS_ID r) (CREATEDAT r) pool \<bar>AMOUNT r\<bar> [] res = Inr (a, b, c)"
    using Cons.prems
    by (cases "scan_lots ea (TRANS_ID r) (CREATEDAT r) pool \<bar>AMOUNT r\<bar> [] res") auto
  have "map clear_REDEEMID out = map clear_REDEEMID c"
    using Cons.prems s Cons.IH[of "fold remove1 b pool" c] by simp
  then show ?case using scan_lots_clear[OF s] by simp
qed

lemma match_customer_clear:
  "match_customer argsort c res = Inr out \<Longrightarrow> map clear_REDEEMID out = map clear_REDEEMID res"
  by (auto simp: match_customer_def Let_def match_redemptions_clear split: if_splits)

lemma match_customers_clear:
  "match_customers argsort cs res = Inr out \<Longrightarrow> map clear_REDEEMID out = map clear_REDEEMID res"
proof (induction cs arbitrary: res)
  case Nil
  then show ?case by simp
next
  case (Cons c cs)
  then obtain res' where r: "match_customer argsort c res = Inr res'"
    by (cases "match_customer argsort c res") simp_all
  then have "map clear_REDEEMID out = map clear_REDEEMID res'" using Cons by simp
  then show ?case using match_customer_clear[OF r] by simp
qed

lemma perform_fifo_matching_clear:
  assumes "perform_fifo_matching argsort df = Inr out"
  shows "map clear_REDEEMID (rows out) = map clear_REDEEMID (rows df)" "has_REDEEMID out"
proof -
  obtain res where r: "match_customers argsort (unique (map CUSTOMERID (map clear_REDEEMID (rows df))))
        (map clear_REDEEMID (rows df)) = Inr res"
    and o: "out = \<lparr>rows = res, has_REDEEMID = True\<rparr>"
    using assms by (auto simp: perform_fifo_matching_def Let_def split: sum.splits)
  show "map clear_REDEEMID (rows out) = map clear_REDEEMID (rows df)"
    using match_customers_clear[OF r] o by (simp add: clear_REDEEMID_idem)
  show "has_REDEEMID out" using o by simp
qed

lemma clear_eq_fields:
  assumes "clear_REDEEMID a = clear_REDEEMID b"
  shows "index_label a = index_label b" "TRANS_ID a = TRANS_ID b" "TCTYPE a = TCTYPE b"
    "CREATEDAT a = CREATEDAT b" "EXPIREDAT a = EXPIREDAT b" "CUSTOMERID a = CUSTOMERID b"
    "ORDERID a = ORDERID b" "AMOUNT a = AMOUNT b" "REASON a = REASON b"
proof -
  have f: "index_label (clear_REDEEMID r) = index_label r"
    "TRANS_ID (clear_REDEEMID r) = TRANS_ID r" "TCTYPE (clear_REDEEMID r) = TCTYPE r"
    "CREATEDAT (clear_REDEEMID r) = CREATEDAT r" "EXPIREDAT (clear_REDEEMID r) = EXPIREDAT r"
    "CUSTOMERID (clear_REDEEMID r) = CUSTOMERID r" "ORDERID (clear_REDEEMID r) = ORDERID r"
    "AMOUNT (clear_REDEEMID r) = AMOUNT r" "REASON (clear_REDEEMID r) = REASON r" for r
    by (simp_all add: clear_REDEEMID_def)
  show "index_label a = index_label b" using assms f(1) by metis
  show "TRANS_ID a = TRANS_ID b" using assms f(2) by metis
  show "TCTYPE a = TCTYPE b" using assms f(3) by metis
  show "CREATEDAT a = CREATEDAT b" using assms f(4) by metis
  show "EXPIREDAT a = EXPIREDAT b" using assms f(5) by metis
  show "CUSTOMERID a = CUSTOMERID b" using assms f(6) by metis
  show "ORDERID a = ORDERID b" using assms f(7) by metis
  show "AMOUNT a = AMOUNT b" using assms f(8) by metis
  show "REASON a = REASON b" using assms f(9) by metis
qed

lemma map_clear_eq_nth:
  assumes "map clear_REDEEMID xs = map clear_REDEEMID ys" "i < length ys"
  shows "clear_REDEEMID (xs ! i) = clear_REDEEMID (ys ! i)"
proof -
  have "length xs = length ys" using assms(1) by (rule map_eq_imp_length_eq)
  then show ?thesis using assms by (metis nth_map)
qed

text \<open>The labels of a customer's earned rows are read off the frame with REDEEMID erased.\<close>

lemma earned_labels_clear:
  assumes "map clear_REDEEMID xs = map clear_REDEEMID ys"
  shows "map index_label (filter (\<lambda>r. TCTYPE r = ''earned'') (filter (\<lambda>r. CUSTOMERID r = c) xs))
       = map index_label (filter (\<lambda>r. TCTYPE r = ''earned'') (filter (\<lambda>r. CUSTOMERID r = c) ys))"
proof -
  have "map index_label (filter (\<lambda>r. TCTYPE r = ''earned'') (filter (\<lambda>r. CUSTOMERID r = c) zs))
      = map index_label (filter (\<lambda>r. TCTYPE r = ''earned'')
          (filter (\<lambda>r. CUSTOMERID r = c) (map clear_REDEEMID zs)))" for zs
    by (induction zs) (simp_all add: clear_REDEEMID_def)
  note h = this
  show ?thesis unfolding h[of xs] h[of ys] assms by (rule refl)
qed

lemma CUSTOMERID_clear:
  assumes "map clear_REDEEMID xs = map clear_REDEEMID ys"
  shows "map CUSTOMERID xs = map CUSTOMERID ys"
proof -
  have "map CUSTOMERID zs = map CUSTOMERID (map clear_REDEEMID zs)" for zs
    by (simp add: clear_REDEEMID_def)
  then show ?thesis using assms by metis
qed

subsection \<open>When the engine returns\<close>

lemma loc_unique:
  assumes "distinct (map index_label ea)" "l \<in> index_label ` set ea"
  shows "\<exists>row. loc ea l = Inr row"
proof -
  have "\<exists>row. filter (\<lambda>r. index_label r = l) ea = [row]"
    using assms
  proof (induction ea)
    case Nil
    then show ?case by simp
  next
    case (Cons x xs)
    show ?case
    proof (cases "index_label x = l")
      case True
      then have "l \<notin> index_label ` set xs" using Cons.prems(1) by auto
      then have "filter (\<lambda>r. index_label r = l) xs = []" by (auto simp: filter_empty_conv)
      then show ?thesis using True by simp
    next
      case False
      then show ?thesis using Cons by auto
    qed
  qed
  then show ?thesis by (auto simp: loc_def)
qed

lemma scan_lots_returns:
  assumes "distinct (map index_label ea)" "set pool \<subseteq> index_label ` set ea"
  shows "\<exists>y. scan_lots ea rid rdate pool rem rm res = Inr y"
  using assms(2)
proof (induction pool arbitrary: rem rm res)
  case Nil
  show ?case by simp
next
  case (Cons l pool)
  obtain row where row: "loc ea l = Inr row"
    using loc_unique[OF assms(1), of l] Cons.prems by auto
  have p: "set pool \<subseteq> index_label ` set ea" using Cons.prems by simp
  show ?case using row Cons.IH[OF p] by simp
qed

lemma fold_remove1_subset: "set (fold remove1 rm av) \<subseteq> set av"
proof (induction rm arbitrary: av)
  case Nil
  show ?case by simp
next
  case (Cons x rm)
  have "set (fold remove1 rm (remove1 x av)) \<subseteq> set (remove1 x av)" by (rule Cons.IH)
  also have "\<dots> \<subseteq> set av" by (rule set_remove1_subset)
  finally show ?case by simp
qed

lemma match_redemptions_returns:
  assumes "distinct (map index_label ea)" "set pool \<subseteq> index_label ` set ea"
  shows "\<exists>out. match_redemptions ea reds pool res = Inr out"
  using assms(2)
proof (induction reds arbitrary: pool res)
  case Nil
  show ?case by simp
next
  case (Cons r reds)
  obtain a b c where s: "scan_lots ea (TRANS_ID r) (CREATEDAT r) pool \<bar>AMOUNT r\<bar> [] res = Inr (a, b, c)"
    using scan_lots_returns[OF assms(1) Cons.prems, of "TRANS_ID r" "CREATEDAT r" "\<bar>AMOUNT r\<bar>" "[]" res]
    by auto
  have "set (fold remove1 b pool) \<subseteq> index_label ` set ea"
    using fold_remove1_subset[of b pool] Cons.prems by blast
  then show ?case using s Cons.IH[of "fold remove1 b pool" c] by simp
qed

lemma match_customer_returns:
  assumes "is_argsort argsort"
    "distinct (map index_label
       (filter (\<lambda>r. TCTYPE r = ''earned'') (filter (\<lambda>r. CUSTOMERID r = c) res)))"
  shows "\<exists>out. match_customer argsort c res = Inr out"
proof -
  let ?ea = "sort_values argsort CREATEDAT
       (filter (\<lambda>r. TCTYPE r = ''earned'') (filter (\<lambda>r. CUSTOMERID r = c) res))"
  have "distinct (map index_label ?ea)"
    using assms by (rule distinct_map_sort_values)
  then have "\<exists>out. match_redemptions ?ea reds (map index_label ?ea) res = Inr out" for reds
    by (rule match_redemptions_returns) simp
  then show ?thesis by (simp add: match_customer_def Let_def)
qed

lemma match_customers_returns:
  assumes "is_argsort argsort"
    "\<forall>c \<in> set cs. distinct (map index_label
       (filter (\<lambda>r. TCTYPE r = ''earned'') (filter (\<lambda>r. CUSTOMERID r = c) res)))"
  shows "\<exists>out. match_customers argsort cs res = Inr out"
  using assms(2)
proof (induction cs arbitrary: res)
  case Nil
  show ?case by simp
next
  case (Cons c cs)
  obtain res' where r: "match_customer argsort c res = Inr res'"
    using match_customer_returns[OF assms(1), of c res] Cons.prems by auto
  have "map clear_REDEEMID res' = map clear_REDEEMID res" using r by (rule match_customer_clear)
  then have "\<forall>c \<in> set cs. distinct (map index_label
       (filter (\<lambda>r. TCTYPE r = ''earned'') (filter (\<lambda>r. CUSTOMERID r = c) res')))"
    using Cons.prems earned_labels_clear[of res' res] by simp
  then show ?case using r Cons.IH[of res'] by simp
qed

lemma perform_fifo_matching_returns:
  assumes "is_argsort argsort" "earned_labels_unique (rows df)"
  shows "\<exists>out. perform_fifo_matching argsort df = Inr out"
proof -
  let ?res = "map clear_REDEEMID (rows df)"
  have m: "map clear_REDEEMID ?res = map clear_REDEEMID (rows df)"
    by (simp add: clear_REDEEMID_idem)
  have 1: "\<forall>c \<in> set (unique (map CUSTOMERID (rows df))). distinct (map index_label
       (filter (\<lambda>r. TCTYPE r = ''earned'') (filter (\<lambda>r. CUSTOMERID r = c) (rows df))))"
    using assms(2) unfolding earned_labels_unique_def list_all_iff .
  have "\<forall>c \<in> set (unique (map CUSTOMERID ?res)). distinct (map index_label
       (filter (\<lambda>r. TCTYPE r = ''earned'') (filter (\<lambda>r. CUSTOMERID r = c) ?res)))"
    unfolding CUSTOMERID_clear[OF m] earned_labels_clear[OF m] by (rule 1)
  then obtain out where "match_customers argsort (unique (map CUSTOMERID ?res)) ?res = Inr out"
    using match_customers_returns[OF assms(1)] by blast
  then show ?thesis by (simp add: perform_fifo_matching_def Let_def)
qed

text \<open>
  C4. Whenever the engine returns a frame, that frame has as many rows as the input, in
  the same positions and under the same labels, and on every row the fields TRANS_ID,
  TCTYPE, CREATEDAT, EXPIREDAT, CUSTOMERID, ORDERID, AMOUNT and REASON are those of the
  input row; the REDEEMID column is present. This holds whatever the sorting routine
  does and whatever the labels are. The engine does return a frame on every batch in
  which no customer has two earned rows under one label, so on every frame with the
  default index; on the other batches the source may raise pandas' ValueError before it
  returns anything.
\<close>

theorem perform_fifo_matching_frame:
  "(\<forall>out. perform_fifo_matching argsort df = Inr out \<longrightarrow>
       length (rows out) = length (rows df)
     \<and> has_REDEEMID out
     \<and> (\<forall>i < length (rows df).
          index_label (rows out ! i) = index_label (rows df ! i)
        \<and> TRANS_ID (rows out ! i) = TRANS_ID (rows df ! i)
        \<and> TCTYPE (rows out ! i) = TCTYPE (rows df ! i)
        \<and> CREATEDAT (rows out ! i) = CREATEDAT (rows df ! i)
        \<and> EXPIREDAT (rows out ! i) = EXPIREDAT (rows df ! i)
        \<and> CUSTOMERID (rows out ! i) = CUSTOMERID (rows df ! i)
        \<and> ORDERID (rows out ! i) = ORDERID (rows df ! i)
        \<and> AMOUNT (rows out ! i) = AMOUNT (rows df ! i)
        \<and> REASON (rows out ! i) = REASON (rows df ! i)))
   \<and> (is_argsort argsort \<and> earned_labels_unique (rows df) \<longrightarrow>
        (\<exists>out. perform_fifo_matching argsort df = Inr out))"
proof (intro conjI allI impI)
  fix out assume o: "perform_fifo_matching argsort df = Inr out"
  note cl = perform_fifo_matching_clear(1)[OF o]
  show "length (rows out) = length (rows df)" using cl by (rule map_eq_imp_length_eq)
  show "has_REDEEMID out" using o by (rule perform_fifo_matching_clear(2))
  fix i assume "i < length (rows df)"
  then have e: "clear_REDEEMID (rows out ! i) = clear_REDEEMID (rows df ! i)"
    using cl by (rule map_clear_eq_nth[rotated])
  show "index_label (rows out ! i) = index_label (rows df ! i)" using e by (rule clear_eq_fields)
  show "TRANS_ID (rows out ! i) = TRANS_ID (rows df ! i)" using e by (rule clear_eq_fields)
  show "TCTYPE (rows out ! i) = TCTYPE (rows df ! i)" using e by (rule clear_eq_fields)
  show "CREATEDAT (rows out ! i) = CREATEDAT (rows df ! i)" using e by (rule clear_eq_fields)
  show "EXPIREDAT (rows out ! i) = EXPIREDAT (rows df ! i)" using e by (rule clear_eq_fields)
  show "CUSTOMERID (rows out ! i) = CUSTOMERID (rows df ! i)" using e by (rule clear_eq_fields)
  show "ORDERID (rows out ! i) = ORDERID (rows df ! i)" using e by (rule clear_eq_fields)
  show "AMOUNT (rows out ! i) = AMOUNT (rows df ! i)" using e by (rule clear_eq_fields)
  show "REASON (rows out ! i) = REASON (rows df ! i)" using e by (rule clear_eq_fields)
next
  assume "is_argsort argsort \<and> earned_labels_unique (rows df)"
  then show "\<exists>out. perform_fifo_matching argsort df = Inr out"
    using perform_fifo_matching_returns by blast
qed

theorem perform_fifo_matching_frame_witness:
  "is_argsort stable_argsort
   \<and> earned_labels_unique (rows sample_tc_data)
   \<and> (1::nat) < length (rows sample_tc_data)
   \<and> (\<exists>out. perform_fifo_matching stable_argsort sample_tc_data = Inr out
          \<and> length (rows out) = 3
          \<and> TRANS_ID (rows out ! 1) = 1002
          \<and> AMOUNT (rows out ! 1) = 30
          \<and> REASON (rows out ! 1) = Some ''Refund'')"
proof -
  have u: "earned_labels_unique (rows sample_tc_data)"
    by (simp add: earned_labels_unique_def sample_tc_data_def)
  have h: "(1::nat) < length (rows sample_tc_data)" by (simp add: sample_tc_data_def)
  obtain out where o: "perform_fifo_matching stable_argsort sample_tc_data = Inr out"
    using perform_fifo_matching_frame[of stable_argsort sample_tc_data] is_argsort_stable u
    by blast
  have "length (rows out) = length (rows sample_tc_data)
      \<and> TRANS_ID (rows out ! 1) = TRANS_ID (rows sample_tc_data ! 1)
      \<and> AMOUNT (rows out ! 1) = AMOUNT (rows sample_tc_data ! 1)
      \<and> REASON (rows out ! 1) = REASON (rows sample_tc_data ! 1)"
    using perform_fifo_matching_frame[of stable_argsort sample_tc_data] o h by blast
  then have "length (rows out) = 3 \<and> TRANS_ID (rows out ! 1) = 1002
      \<and> AMOUNT (rows out ! 1) = 30 \<and> REASON (rows out ! 1) = Some ''Refund''"
    by (simp add: sample_tc_data_def)
  then show ?thesis using is_argsort_stable u h o by blast
qed

text \<open>
  C10. Running the engine on its own output gives that output again: the second run
  clears the REDEEMID column, and all it reads afterwards are fields the first run
  left as they were (so the sorting routine sees the same timestamps in both runs).
  Stated for the composition of the two runs, it holds of every batch, whatever the
  labels: should the first run raise, there is no second one.
\<close>

theorem perform_fifo_matching_idempotent:
  "(case perform_fifo_matching argsort df of
      Inl err \<Rightarrow> Inl err
    | Inr out \<Rightarrow> perform_fifo_matching argsort out) = perform_fifo_matching argsort df"
proof (cases "perform_fifo_matching argsort df")
  case (Inl err)
  then show ?thesis by simp
next
  case (Inr out)
  define G where "G res = (case match_customers argsort (unique (map CUSTOMERID res)) res of
        Inl err \<Rightarrow> Inl err | Inr res' \<Rightarrow> Inr \<lparr>rows = res', has_REDEEMID = True\<rparr>)" for res
  have pf: "perform_fifo_matching argsort d = G (map clear_REDEEMID (rows d))" for d
    by (simp add: perform_fifo_matching_def Let_def G_def)
  have "map clear_REDEEMID (rows out) = map clear_REDEEMID (rows df)"
    using Inr by (rule perform_fifo_matching_clear)
  then have "G (map clear_REDEEMID (rows out)) = G (map clear_REDEEMID (rows df))"
    by (rule arg_cong)
  then have "perform_fifo_matching argsort out = perform_fifo_matching argsort df"
    by (simp only: pf)
  then show ?thesis using Inr by simp
qed

theorem perform_fifo_matching_idempotent_witness:
  "annotations (perform_fifo_matching stable_argsort sample_tc_data)
     = Inr [(1001, Some 1003), (1002, Some 1003), (1003, None)]
   \<and> annotations
       (case perform_fifo_matching stable_argsort sample_tc_data of
          Inl err \<Rightarrow> Inl err
        | Inr out \<Rightarrow> perform_fifo_matching stable_argsort out)
     = Inr [(1001, Some 1003), (1002, Some 1003), (1003, None)]"
proof -
  have "annotations (perform_fifo_matching stable_argsort sample_tc_data)
          = Inr [(1001, Some 1003), (1002, Some 1003), (1003, None)]"
    by (simp add: sample_tc_data_def perform_fifo_matching_def match_customer_def sort_values_def
        stable_argsort_def clear_REDEEMID_def is_redemption_def loc_def set_REDEEMID_def
        annotations_def)
  then show ?thesis
    using perform_fifo_matching_idempotent[of stable_argsort sample_tc_data] by simp
qed

subsection \<open>Scenario A\<close>



subsection \<open>Frames with pairwise distinct labels: customers do not interact\<close>

text \<open>A write under a label that no row of a selection has leaves the selection as it is.\<close>

lemma filter_set_REDEEMID_other:
  assumes "\<forall>r \<in> set res. CUSTOMERID r = c \<longrightarrow> index_label r \<noteq> l"
  shows "filter (\<lambda>r. CUSTOMERID r = c) (set_REDEEMID l rid res) = filter (\<lambda>r. CUSTOMERID r = c) res"
  using assms by (induction res) (simp_all add: set_REDEEMID_def)

lemma filter_set_REDEEMID:
  "filter (\<lambda>r. CUSTOMERID r = c) (set_REDEEMID l rid res)
     = set_REDEEMID l rid (filter (\<lambda>r. CUSTOMERID r = c) res)"
  by (induction res) (simp_all add: set_REDEEMID_def)

lemma set_REDEEMID_labels:
  "map index_label (set_REDEEMID l rid res) = map index_label res"
  "map CUSTOMERID (set_REDEEMID l rid res) = map CUSTOMERID res"
  by (induction res) (simp_all add: set_REDEEMID_def)

lemma scan_lots_other:
  assumes "scan_lots ea rid rdate pool rem rm res = Inr (a, b, out)"
    "\<forall>r \<in> set res. CUSTOMERID r = c \<longrightarrow> index_label r \<notin> set pool"
  shows "filter (\<lambda>r. CUSTOMERID r = c) out = filter (\<lambda>r. CUSTOMERID r = c) res"
  using assms
proof (induction pool arbitrary: rem rm res)
  case Nil
  then show ?case by simp
next
  case (Cons l pool)
  have rest: "\<forall>r \<in> set res. CUSTOMERID r = c \<longrightarrow> index_label r \<notin> set pool"
    and here: "\<forall>r \<in> set res. CUSTOMERID r = c \<longrightarrow> index_label r \<noteq> l"
    using Cons.prems(2) by auto
  show ?case
  proof (cases "rem \<le> 0")
    case True
    then show ?thesis using Cons.prems(1) by simp
  next
    case False
    then obtain row where row: "loc ea l = Inr row"
      using Cons.prems(1) by (cases "loc ea l") simp_all
    show ?thesis
    proof (cases "CREATEDAT row > rdate")
      case True
      then show ?thesis using False row Cons.prems(1) Cons.IH[of rem rm res] rest by simp
    next
      case late: False
      let ?res = "set_REDEEMID l rid res"
      have s: "scan_lots ea rid rdate pool (rem - AMOUNT row) (rm @ [l]) ?res = Inr (a, b, out)"
        using False row late Cons.prems(1) by simp
      have "\<forall>r \<in> set ?res. CUSTOMERID r = c \<longrightarrow> index_label r \<notin> set pool"
        using rest by (auto simp: set_REDEEMID_def)
      then have "filter (\<lambda>r. CUSTOMERID r = c) out = filter (\<lambda>r. CUSTOMERID r = c) ?res"
        using Cons.IH[OF s] by simp
      then show ?thesis using filter_set_REDEEMID_other[OF here] by simp
    qed
  qed
qed

lemma match_redemptions_other:
  assumes "match_redemptions ea reds pool res = Inr out"
    "\<forall>r \<in> set res. CUSTOMERID r = c \<longrightarrow> index_label r \<notin> set pool"
  shows "filter (\<lambda>r. CUSTOMERID r = c) out = filter (\<lambda>r. CUSTOMERID r = c) res"
  using assms
proof (induction reds arbitrary: pool res)
  case Nil
  then show ?case by simp
next
  case (Cons r reds)
  obtain a b mid where s: "scan_lots ea (TRANS_ID r) (CREATEDAT r) pool \<bar>AMOUNT r\<bar> [] res = Inr (a, b, mid)"
    using Cons.prems(1)
    by (cases "scan_lots ea (TRANS_ID r) (CREATEDAT r) pool \<bar>AMOUNT r\<bar> [] res") auto
  have m: "match_redemptions ea reds (fold remove1 b pool) mid = Inr out"
    using Cons.prems(1) s by simp
  have f: "filter (\<lambda>r. CUSTOMERID r = c) mid = filter (\<lambda>r. CUSTOMERID r = c) res"
    using s Cons.prems(2) by (rule scan_lots_other)
  have cl: "map clear_REDEEMID mid = map clear_REDEEMID res" using s by (rule scan_lots_clear)
  have "\<forall>r \<in> set mid. CUSTOMERID r = c \<longrightarrow> index_label r \<notin> set pool"
  proof (intro ballI impI)
    fix x assume x: "x \<in> set mid" "CUSTOMERID x = c"
    then have "x \<in> set (filter (\<lambda>r. CUSTOMERID r = c) res)" using f by (metis (mono_tags, lifting) mem_Collect_eq set_filter)
    then show "index_label x \<notin> set pool" using Cons.prems(2) by simp
  qed
  then have "\<forall>r \<in> set mid. CUSTOMERID r = c \<longrightarrow> index_label r \<notin> set (fold remove1 b pool)"
    using fold_remove1_subset[of b pool] by blast
  then have "filter (\<lambda>r. CUSTOMERID r = c) out = filter (\<lambda>r. CUSTOMERID r = c) mid"
    using Cons.IH[OF m] by simp
  then show ?case using f by simp
qed

lemma match_customer_other:
  assumes "is_argsort argsort" "distinct (map index_label res)" "c' \<noteq> c"
    "match_customer argsort c' res = Inr out"
  shows "filter (\<lambda>r. CUSTOMERID r = c) out = filter (\<lambda>r. CUSTOMERID r = c) res"
proof -
  let ?ea = "sort_values argsort CREATEDAT
       (filter (\<lambda>r. TCTYPE r = ''earned'') (filter (\<lambda>r. CUSTOMERID r = c') res))"
  have sub: "set ?ea \<subseteq> {r \<in> set res. CUSTOMERID r = c'}"
    by (auto simp: set_sort_values[OF assms(1)])
  have other: "\<forall>r \<in> set res. CUSTOMERID r = c \<longrightarrow> index_label r \<notin> set (map index_label ?ea)"
  proof (intro ballI impI notI)
    fix r assume r: "r \<in> set res" "CUSTOMERID r = c" "index_label r \<in> set (map index_label ?ea)"
    then obtain e where e: "e \<in> set ?ea" "index_label e = index_label r" by auto
    then have "e \<in> set res" "CUSTOMERID e = c'" using sub by auto
    then have "e = r" using assms(2) r(1) e(2) by (auto simp: distinct_map dest: inj_onD)
    then show False using \<open>CUSTOMERID e = c'\<close> r(2) assms(3) by simp
  qed
  show ?thesis
  proof (cases "length ?ea = 0 \<or> length (sort_values argsort CREATEDAT
        (filter is_redemption (filter (\<lambda>r. CUSTOMERID r = c') res))) = 0")
    case True
    then show ?thesis using assms(4) by (auto simp: match_customer_def Let_def)
  next
    case False
    then have "match_redemptions ?ea (sort_values argsort CREATEDAT
        (filter is_redemption (filter (\<lambda>r. CUSTOMERID r = c') res))) (map index_label ?ea) res = Inr out"
      using assms(4) by (simp add: match_customer_def Let_def)
    then show ?thesis using other by (rule match_redemptions_other)
  qed
qed

text \<open>
  The pass for a customer commutes with the selection of that customer's rows, whatever
  the labels: what it reads are the customer's rows, and the selection keeps them.
\<close>

lemma scan_lots_project:
  "scan_lots ea rid rdate pool rem rm (filter (\<lambda>r. CUSTOMERID r = c) res)
     = (case scan_lots ea rid rdate pool rem rm res of
          Inl err \<Rightarrow> Inl err
        | Inr (a, b, out) \<Rightarrow> Inr (a, b, filter (\<lambda>r. CUSTOMERID r = c) out))"
proof (induction pool arbitrary: rem rm res)
  case Nil
  show ?case by simp
next
  case (Cons l pool)
  show ?case
  proof (cases "rem \<le> 0")
    case True
    then show ?thesis by simp
  next
    case False
    show ?thesis
    proof (cases "loc ea l")
      case (Inl err)
      then show ?thesis using False by simp
    next
      case (Inr row)
      show ?thesis
      proof (cases "CREATEDAT row > rdate")
        case True
        then show ?thesis using False Inr Cons.IH[of rem rm res] by simp
      next
        case late: False
        show ?thesis
          using False Inr late Cons.IH[of "rem - AMOUNT row" "rm @ [l]" "set_REDEEMID l rid res"]
          by (simp add: filter_set_REDEEMID)
      qed
    qed
  qed
qed

lemma match_redemptions_project:
  "match_redemptions ea reds pool (filter (\<lambda>r. CUSTOMERID r = c) res)
     = (case match_redemptions ea reds pool res of
          Inl err \<Rightarrow> Inl err
        | Inr out \<Rightarrow> Inr (filter (\<lambda>r. CUSTOMERID r = c) out))"
proof (induction reds arbitrary: pool res)
  case Nil
  show ?case by simp
next
  case (Cons r reds)
  show ?case
  proof (cases "scan_lots ea (TRANS_ID r) (CREATEDAT r) pool \<bar>AMOUNT r\<bar> [] res")
    case (Inl err)
    then show ?thesis
      using scan_lots_project[of ea "TRANS_ID r" "CREATEDAT r" pool "\<bar>AMOUNT r\<bar>" "[]" c res]
      by simp
  next
    case (Inr y)
    obtain a b mid where y: "y = (a, b, mid)" by (cases y) auto
    show ?thesis
      using Inr y Cons.IH[of "fold remove1 b pool" mid]
        scan_lots_project[of ea "TRANS_ID r" "CREATEDAT r" pool "\<bar>AMOUNT r\<bar>" "[]" c res]
      by simp
  qed
qed

lemma match_customer_project:
  "match_customer argsort c (filter (\<lambda>r. CUSTOMERID r = c) res)
     = (case match_customer argsort c res of
          Inl err \<Rightarrow> Inl err
        | Inr out \<Rightarrow> Inr (filter (\<lambda>r. CUSTOMERID r = c) out))"
  by (simp add: match_customer_def Let_def match_redemptions_project)

lemma distinct_unique: "distinct (unique xs)"
  by (induction xs) simp_all

lemma set_unique: "set (unique xs) = set xs"
  by (induction xs) auto

lemma match_customers_project:
  assumes "is_argsort argsort" "distinct (map index_label res)" "distinct cs"
    "match_customers argsort cs res = Inr out"
  shows "Inr (filter (\<lambda>r. CUSTOMERID r = c) out)
           = (if c \<in> set cs then match_customer argsort c (filter (\<lambda>r. CUSTOMERID r = c) res)
              else Inr (filter (\<lambda>r. CUSTOMERID r = c) res))"
  using assms(2-4)
proof (induction cs arbitrary: res)
  case Nil
  then show ?case by simp
next
  case (Cons c1 cs)
  obtain mid where m: "match_customer argsort c1 res = Inr mid"
    using Cons.prems(3) by (cases "match_customer argsort c1 res") simp_all
  have rest: "match_customers argsort cs mid = Inr out" using Cons.prems(3) m by simp
  have cl: "map clear_REDEEMID mid = map clear_REDEEMID res" using m by (rule match_customer_clear)
  have "map index_label mid = map index_label (map clear_REDEEMID mid)"
    by (simp add: clear_REDEEMID_def)
  also have "\<dots> = map index_label (map clear_REDEEMID res)" by (simp only: cl)
  also have "\<dots> = map index_label res" by (simp add: clear_REDEEMID_def)
  finally have d: "distinct (map index_label mid)" using Cons.prems(1) by simp
  have dc: "distinct cs" and n: "c1 \<notin> set cs" using Cons.prems(2) by simp_all
  note ih = Cons.IH[OF d dc rest]
  show ?case
  proof (cases "c1 = c")
    case True
    then have "Inr (filter (\<lambda>r. CUSTOMERID r = c) out) = Inr (filter (\<lambda>r. CUSTOMERID r = c) mid)"
      using ih n by simp
    also have "\<dots> = match_customer argsort c (filter (\<lambda>r. CUSTOMERID r = c) res)"
      using m True by (simp add: match_customer_project)
    finally show ?thesis using True by simp
  next
    case False
    have "filter (\<lambda>r. CUSTOMERID r = c) mid = filter (\<lambda>r. CUSTOMERID r = c) res"
      using assms(1) Cons.prems(1) False m by (rule match_customer_other)
    then show ?thesis using ih False by simp
  qed
qed

lemma match_customer_Nil: "is_argsort argsort \<Longrightarrow> match_customer argsort c [] = Inr []"
  by (simp add: match_customer_def sort_values_def argsort_small(1))

lemma perform_fifo_matching_project:
  assumes "is_argsort argsort" "distinct (map index_label (rows df))"
    "perform_fifo_matching argsort df = Inr out"
  shows "Inr (filter (\<lambda>r. CUSTOMERID r = c) (rows out))
           = match_customer argsort c (map clear_REDEEMID (filter (\<lambda>r. CUSTOMERID r = c) (rows df)))"
proof -
  let ?res = "map clear_REDEEMID (rows df)"
  have cid: "CUSTOMERID (clear_REDEEMID r) = CUSTOMERID r" for r by (simp add: clear_REDEEMID_def)
  have f: "filter (\<lambda>r. CUSTOMERID r = c) ?res
             = map clear_REDEEMID (filter (\<lambda>r. CUSTOMERID r = c) (rows df))"
    by (simp add: filter_map comp_def cid)
  have d: "distinct (map index_label ?res)" using assms(2) by (simp add: clear_REDEEMID_def comp_def)
  obtain res' where r: "match_customers argsort (unique (map CUSTOMERID ?res)) ?res = Inr res'"
    and o: "out = \<lparr>rows = res', has_REDEEMID = True\<rparr>"
    using assms(3) by (auto simp: perform_fifo_matching_def Let_def split: sum.splits)
  note p = match_customers_project[OF assms(1) d distinct_unique r, of c]
  have "Inr (filter (\<lambda>r. CUSTOMERID r = c) res')
          = match_customer argsort c (filter (\<lambda>r. CUSTOMERID r = c) ?res)"
  proof (cases "c \<in> set (unique (map CUSTOMERID ?res))")
    case True
    then show ?thesis using p by simp
  next
    case False
    then have "\<forall>r \<in> set ?res. CUSTOMERID r \<noteq> c" by (auto simp: set_unique)
    then have "filter (\<lambda>r. CUSTOMERID r = c) ?res = []" by (simp only: filter_empty_conv)
    then show ?thesis using False p by (simp add: match_customer_Nil[OF assms(1)])
  qed
  then show ?thesis unfolding f using o by simp
qed

lemma distinct_labels_earned_unique:
  "distinct (map index_label df) \<Longrightarrow> earned_labels_unique df"
  by (simp add: earned_labels_unique_def list_all_iff distinct_map_filter)

text \<open>
  On two frames with pairwise distinct labels (the default index is one) that hold the
  same rows for a customer, the engine returns on both and gives that customer's rows
  the same REDEEMIDs, whatever the other rows are.
\<close>

lemma customer_isolation_distinct_labels:
  assumes "is_argsort argsort"
    and "distinct (map index_label (rows df1))" "distinct (map index_label (rows df2))"
    and "filter (\<lambda>r. CUSTOMERID r = c) (rows df1) = filter (\<lambda>r. CUSTOMERID r = c) (rows df2)"
  shows "\<exists>out1 out2. perform_fifo_matching argsort df1 = Inr out1
           \<and> perform_fifo_matching argsort df2 = Inr out2
           \<and> filter (\<lambda>r. CUSTOMERID r = c) (rows out1) = filter (\<lambda>r. CUSTOMERID r = c) (rows out2)"
proof -
  obtain out1 where o1: "perform_fifo_matching argsort df1 = Inr out1"
    using perform_fifo_matching_returns[OF assms(1) distinct_labels_earned_unique[OF assms(2)]] by blast
  obtain out2 where o2: "perform_fifo_matching argsort df2 = Inr out2"
    using perform_fifo_matching_returns[OF assms(1) distinct_labels_earned_unique[OF assms(3)]] by blast
  have "(Inr (filter (\<lambda>r. CUSTOMERID r = c) (rows out1)) :: pandas_error + txn list)
          = Inr (filter (\<lambda>r. CUSTOMERID r = c) (rows out2))"
    using perform_fifo_matching_project[OF assms(1,2) o1, of c]
      perform_fifo_matching_project[OF assms(1,3) o2, of c] assms(4) by simp
  then show ?thesis using o1 o2 by simp
qed

subsection \<open>Frames with pairwise distinct labels: the date test covers every write\<close>

lemma loc_Inr:
  assumes "loc ea l = Inr row"
  shows "row \<in> set ea" "index_label row = l"
proof -
  have f: "filter (\<lambda>r. index_label r = l) ea = [row]"
    using assms by (auto simp: loc_def split: list.splits)
  have "row \<in> set (filter (\<lambda>r. index_label r = l) ea)" by (simp only: f list.set_intros)
  then show "row \<in> set ea" "index_label row = l" by simp_all
qed

lemma guarded_set_REDEEMID:
  assumes "\<forall>r \<in> set res. guarded B r"
    and "\<forall>r \<in> set res. index_label r = l \<longrightarrow>
           TCTYPE r = ''earned'' \<and> CUSTOMERID r = c \<and> CREATEDAT r \<le> rdate"
    and "s \<in> set B" "TRANS_ID s = rid" "is_redemption s" "CUSTOMERID s = c" "CREATEDAT s = rdate"
  shows "\<forall>r \<in> set (set_REDEEMID l rid res). guarded B r"
proof
  fix x assume "x \<in> set (set_REDEEMID l rid res)"
  then obtain r where r: "r \<in> set res"
      and x: "x = (if index_label r = l then r\<lparr>REDEEMID := Some rid\<rparr> else r)"
    by (auto simp: set_REDEEMID_def)
  show "guarded B x"
  proof (cases "index_label r = l")
    case True
    then have "TCTYPE r = ''earned''" "CUSTOMERID r = c" "CREATEDAT r \<le> rdate"
      using assms(2) r by simp_all
    then have "TCTYPE x = ''earned''" "CUSTOMERID s = CUSTOMERID x" "CREATEDAT x \<le> CREATEDAT s"
      "REDEEMID x = Some rid"
      using x True assms(6,7) by simp_all
    then show ?thesis using assms(3,4,5) unfolding guarded_def by auto
  next
    case False
    then show ?thesis using x r assms(1) by simp
  qed
qed

lemma scan_lots_guarded:
  assumes "scan_lots ea rid rdate pool rem rm res = Inr (a, b, out)"
    and "map clear_REDEEMID res = B"
    and "\<forall>x \<in> set B. \<forall>row. loc ea (index_label x) = Inr row \<longrightarrow>
           TCTYPE x = ''earned'' \<and> CUSTOMERID x = c \<and> CREATEDAT x = CREATEDAT row"
    and "s \<in> set B" "TRANS_ID s = rid" "is_redemption s" "CUSTOMERID s = c" "CREATEDAT s = rdate"
    and "\<forall>r \<in> set res. guarded B r"
  shows "\<forall>r \<in> set out. guarded B r"
  using assms(1,2,9)
proof (induction pool arbitrary: rem rm res)
  case Nil
  then show ?case by simp
next
  case (Cons l pool)
  show ?case
  proof (cases "rem \<le> 0")
    case True
    then show ?thesis using Cons.prems by simp
  next
    case False
    then obtain row where row: "loc ea l = Inr row"
      using Cons.prems(1) by (cases "loc ea l") simp_all
    show ?thesis
    proof (cases "CREATEDAT row > rdate")
      case True
      then show ?thesis using False row Cons.prems Cons.IH[of rem rm res] by simp
    next
      case late: False
      let ?res = "set_REDEEMID l rid res"
      have s: "scan_lots ea rid rdate pool (rem - AMOUNT row) (rm @ [l]) ?res = Inr (a, b, out)"
        using False row late Cons.prems(1) by simp
      have cl: "map clear_REDEEMID ?res = B" using Cons.prems(2) by (simp add: set_REDEEMID_clear)
      have lot: "\<forall>r \<in> set res. index_label r = l \<longrightarrow>
           TCTYPE r = ''earned'' \<and> CUSTOMERID r = c \<and> CREATEDAT r \<le> rdate"
      proof (intro ballI impI)
        fix r assume r: "r \<in> set res" "index_label r = l"
        have "clear_REDEEMID r \<in> set B" using r(1) Cons.prems(2) by auto
        moreover have "loc ea (index_label (clear_REDEEMID r)) = Inr row"
          using row r(2) by (simp add: clear_REDEEMID_def)
        ultimately have "TCTYPE (clear_REDEEMID r) = ''earned'' \<and> CUSTOMERID (clear_REDEEMID r) = c
            \<and> CREATEDAT (clear_REDEEMID r) = CREATEDAT row"
          using assms(3) by blast
        then show "TCTYPE r = ''earned'' \<and> CUSTOMERID r = c \<and> CREATEDAT r \<le> rdate"
          using late by (simp add: clear_REDEEMID_def)
      qed
      have "\<forall>r \<in> set ?res. guarded B r"
        using Cons.prems(3) lot assms(4-8) by (rule guarded_set_REDEEMID)
      then show ?thesis using Cons.IH[OF s cl] by simp
    qed
  qed
qed

lemma match_redemptions_guarded:
  assumes "match_redemptions ea reds pool res = Inr out"
    and "map clear_REDEEMID res = B"
    and "\<forall>x \<in> set B. \<forall>row. loc ea (index_label x) = Inr row \<longrightarrow>
           TCTYPE x = ''earned'' \<and> CUSTOMERID x = c \<and> CREATEDAT x = CREATEDAT row"
    and "\<forall>s \<in> set reds. clear_REDEEMID s \<in> set B \<and> is_redemption s \<and> CUSTOMERID s = c"
    and "\<forall>r \<in> set res. guarded B r"
  shows "\<forall>r \<in> set out. guarded B r"
  using assms(1,2,4,5)
proof (induction reds arbitrary: pool res)
  case Nil
  then show ?case by simp
next
  case (Cons s reds)
  obtain a b mid where sc: "scan_lots ea (TRANS_ID s) (CREATEDAT s) pool \<bar>AMOUNT s\<bar> [] res = Inr (a, b, mid)"
    using Cons.prems(1)
    by (cases "scan_lots ea (TRANS_ID s) (CREATEDAT s) pool \<bar>AMOUNT s\<bar> [] res") auto
  have m: "match_redemptions ea reds (fold remove1 b pool) mid = Inr out"
    using Cons.prems(1) sc by simp
  have cl: "map clear_REDEEMID mid = B" using scan_lots_clear[OF sc] Cons.prems(2) by simp
  have s: "clear_REDEEMID s \<in> set B" "is_redemption s" "CUSTOMERID s = c"
    using Cons.prems(3) by simp_all
  have s': "TRANS_ID (clear_REDEEMID s) = TRANS_ID s" "is_redemption (clear_REDEEMID s)"
    "CUSTOMERID (clear_REDEEMID s) = c" "CREATEDAT (clear_REDEEMID s) = CREATEDAT s"
    using s(2,3) by (simp_all add: clear_REDEEMID_def is_redemption_def)
  have g: "\<forall>r \<in> set mid. guarded B r"
    using sc Cons.prems(2) assms(3) s(1) s' Cons.prems(4) by (rule scan_lots_guarded)
  have rest: "\<forall>s \<in> set reds. clear_REDEEMID s \<in> set B \<and> is_redemption s \<and> CUSTOMERID s = c"
    using Cons.prems(3) by simp
  show ?case using m cl rest g by (rule Cons.IH)
qed

lemma match_customer_guarded:
  assumes "is_argsort argsort" "distinct (map index_label res)"
    "match_customer argsort c res = Inr out" "map clear_REDEEMID res = B"
    "\<forall>r \<in> set res. guarded B r"
  shows "\<forall>r \<in> set out. guarded B r"
proof -
  let ?ea = "sort_values argsort CREATEDAT
       (filter (\<lambda>r. TCTYPE r = ''earned'') (filter (\<lambda>r. CUSTOMERID r = c) res))"
  let ?reds = "sort_values argsort CREATEDAT (filter is_redemption (filter (\<lambda>r. CUSTOMERID r = c) res))"
  have ea: "set ?ea = {r \<in> set res. CUSTOMERID r = c \<and> TCTYPE r = ''earned''}"
    by (auto simp: set_sort_values[OF assms(1)])
  have reds: "set ?reds = {r \<in> set res. CUSTOMERID r = c \<and> is_redemption r}"
    by (auto simp: set_sort_values[OF assms(1)])
  have lots: "\<forall>x \<in> set B. \<forall>row. loc ?ea (index_label x) = Inr row \<longrightarrow>
           TCTYPE x = ''earned'' \<and> CUSTOMERID x = c \<and> CREATEDAT x = CREATEDAT row"
  proof (intro ballI allI impI)
    fix x row assume x: "x \<in> set B" and l: "loc ?ea (index_label x) = Inr row"
    obtain r where r: "r \<in> set res" "x = clear_REDEEMID r" using x assms(4) by auto
    have row: "row \<in> set res" "CUSTOMERID row = c" "TCTYPE row = ''earned''"
      "index_label row = index_label x"
      using loc_Inr[OF l] ea by auto
    have "index_label row = index_label r" using row(4) r(2) by (simp add: clear_REDEEMID_def)
    then have "row = r" using assms(2) row(1) r(1) by (auto simp: distinct_map dest: inj_onD)
    then show "TCTYPE x = ''earned'' \<and> CUSTOMERID x = c \<and> CREATEDAT x = CREATEDAT row"
      using row(2,3) r(2) by (simp add: clear_REDEEMID_def)
  qed
  have rd: "\<forall>s \<in> set ?reds. clear_REDEEMID s \<in> set B \<and> is_redemption s \<and> CUSTOMERID s = c"
    using reds assms(4) by auto
  show ?thesis
  proof (cases "length ?ea = 0 \<or> length ?reds = 0")
    case True
    then show ?thesis using assms(3,5) by (auto simp: match_customer_def Let_def)
  next
    case False
    then have "match_redemptions ?ea ?reds (map index_label ?ea) res = Inr out"
      using assms(3) by (simp add: match_customer_def Let_def)
    then show ?thesis using assms(4) lots rd assms(5) by (rule match_redemptions_guarded)
  qed
qed

lemma match_customers_guarded:
  assumes "is_argsort argsort" "distinct (map index_label B)"
    "match_customers argsort cs res = Inr out" "map clear_REDEEMID res = B"
    "\<forall>r \<in> set res. guarded B r"
  shows "\<forall>r \<in> set out. guarded B r"
  using assms(3-5)
proof (induction cs arbitrary: res)
  case Nil
  then show ?case by simp
next
  case (Cons c cs)
  obtain mid where m: "match_customer argsort c res = Inr mid"
    using Cons.prems(1) by (cases "match_customer argsort c res") simp_all
  have rest: "match_customers argsort cs mid = Inr out" using Cons.prems(1) m by simp
  have cl: "map clear_REDEEMID mid = B" using match_customer_clear[OF m] Cons.prems(2) by simp
  have "map index_label res = map index_label (map clear_REDEEMID res)"
    by (simp add: clear_REDEEMID_def)
  then have d: "distinct (map index_label res)" using assms(2) Cons.prems(2) by simp
  have g: "\<forall>r \<in> set mid. guarded B r"
    using assms(1) d m Cons.prems(2,3) by (rule match_customer_guarded)
  show ?case using rest cl g by (rule Cons.IH)
qed

text \<open>
  On a frame with pairwise distinct labels, every row of the returned frame that
  carries a REDEEMID is an earned row, and a redemption of the same customer has that
  TRANS_ID and is dated no earlier than the row.
\<close>

lemma temporal_guard_distinct_labels:
  assumes "is_argsort argsort" "distinct (map index_label (rows df))"
    "perform_fifo_matching argsort df = Inr out"
  shows "\<forall>r \<in> set (rows out). guarded (rows out) r"
proof -
  let ?B = "map clear_REDEEMID (rows df)"
  obtain res where r: "match_customers argsort (unique (map CUSTOMERID ?B)) ?B = Inr res"
    and o: "out = \<lparr>rows = res, has_REDEEMID = True\<rparr>"
    using assms(3) by (auto simp: perform_fifo_matching_def Let_def split: sum.splits)
  have d: "distinct (map index_label ?B)" using assms(2) by (simp add: clear_REDEEMID_def comp_def)
  have cl: "map clear_REDEEMID ?B = ?B" by (simp add: clear_REDEEMID_idem)
  have g0: "\<forall>r \<in> set ?B. guarded ?B r" by (auto simp: guarded_def clear_REDEEMID_def)
  have g: "\<forall>r \<in> set res. guarded ?B r"
    using assms(1) d r cl g0 by (rule match_customers_guarded)
  have B: "map clear_REDEEMID res = ?B" using match_customers_clear[OF r] cl by simp
  show ?thesis
  proof
    fix x assume "x \<in> set (rows out)"
    then have x: "x \<in> set res" using o by simp
    show "guarded (rows out) x"
    proof (cases "REDEEMID x")
      case None
      then show ?thesis by (simp add: guarded_def)
    next
      case (Some rid)
      then have e: "TCTYPE x = ''earned''"
        and "\<exists>s \<in> set ?B. TRANS_ID s = rid \<and> is_redemption s
               \<and> CUSTOMERID s = CUSTOMERID x \<and> CREATEDAT x \<le> CREATEDAT s"
        using g x by (auto simp: guarded_def)
      then obtain s where s: "s \<in> set ?B" "TRANS_ID s = rid" "is_redemption s"
        "CUSTOMERID s = CUSTOMERID x" "CREATEDAT x \<le> CREATEDAT s" by blast
      have "s \<in> set (map clear_REDEEMID res)" using s(1) by (simp only: B)
      then obtain s' where s': "s' \<in> set res" "s = clear_REDEEMID s'" by auto
      have "TRANS_ID s' = rid" "is_redemption s'" "CUSTOMERID s' = CUSTOMERID x"
        "CREATEDAT x \<le> CREATEDAT s'"
        using s(2-5) s'(2) by (simp_all add: clear_REDEEMID_def is_redemption_def)
      then show ?thesis using Some e s'(1) o unfolding guarded_def by auto
    qed
  qed
qed

subsection \<open>Repeated labels\<close>

text \<open>
  C2. The claim fails of the source on a frame in which an earned row of another
  customer shares the label of a matched lot: the write
  \<^verbatim>\<open>result_df.loc[earned_idx, 'REDEEMID'] = redemption_id\<close> reaches every row under that
  label, past the test \<^verbatim>\<open>earned_date > redemption_date\<close> made on the lot alone. In the
  frame below row 1 is an earned row of customer 100 dated 2024-01-01; the engine
  returns, and row 1 carries REDEEMID 3, the id of the one row numbered 3, a spent row
  of customer 200 dated 2023-02-01, strictly earlier. The labels must repeat for this:
  on frames with pairwise distinct labels the guard holds, as shown above.
\<close>

theorem temporal_guard_shared_label:
  "annotations (perform_fifo_matching stable_argsort concat_shared_label)
     = Inr [(1, Some 3), (2, Some 3), (3, None)]
   \<and> map TRANS_ID (rows concat_shared_label) = [1, 2, 3]
   \<and> map index_label (rows concat_shared_label) = [0, 0, 1]
   \<and> TCTYPE (rows concat_shared_label ! 0) = ''earned''
   \<and> CREATEDAT (rows concat_shared_label ! 2) < CREATEDAT (rows concat_shared_label ! 0)"
  by (simp add: concat_shared_label_def perform_fifo_matching_def match_customer_def sort_values_def
        stable_argsort_def clear_REDEEMID_def is_redemption_def loc_def set_REDEEMID_def
        annotations_def)

text \<open>
  C3. The claim fails of the source for the same reason. In the first frame below the
  rows of customer 100 and of customer 200 share the labels 0, 1, 2; the second frame
  holds the rows of customer 100 alone, unchanged. The engine returns on both, and
  gives the rows of customer 100 the REDEEMIDs 2002, 2002 and none in the first, 1002,
  none and none in the second: the pass for customer 200 writes its redemption on the
  rows of customer 100, the spent row 1002 among them. Here too the labels must repeat:
  between frames with pairwise distinct labels the customers do not interact, as shown
  above.
\<close>

theorem customer_isolation_shared_labels:
  "filter (\<lambda>r. CUSTOMERID r = 100) (rows concat_by_customer) = rows customer_100_alone
   \<and> map index_label (rows concat_by_customer) = [0, 1, 2, 0, 1, 2]
   \<and> annotations (perform_fifo_matching stable_argsort concat_by_customer)
       = Inr [(1001, Some 2002), (1002, Some 2002), (2003, None),
              (1003, Some 2002), (2001, Some 2002), (2002, None)]
   \<and> annotations (perform_fifo_matching stable_argsort customer_100_alone)
       = Inr [(1001, Some 1002), (1002, None), (2003, None)]"
  by (simp add: concat_by_customer_def customer_100_alone_def perform_fifo_matching_def match_customer_def sort_values_def
        stable_argsort_def clear_REDEEMID_def is_redemption_def loc_def set_REDEEMID_def
        annotations_def)

end
